theory Spec2Isabelle
  imports Complex_Main "HOL-Library.Word" "HOL-Library.Monad_Syntax"
begin

section \<open>Offline text-to-speech hook (client/src/hooks/useTTS.ts)\<close>

text \<open>
  A shallow embedding of the speech hook: the voice profile table, the WAV encoder, the
  waveform synthesizer, the persistent audio cache and the \<open>speak\<close>/\<open>stop\<close> orchestration.

  Conventions.
  \<^item> A JavaScript string is a \<open>string\<close>: a list of code units. The model covers code units
    below 256 (Latin-1); \<open>length\<close> is the string's \<open>.length\<close>.
  \<^item> A statement that throws, or a promise that rejects, yields \<open>None\<close>; a \<open>try/catch\<close> is a
    case distinction on the result.
  \<^item> Binary64 arithmetic is exact rational arithmetic followed by a rounding function
    \<open>rnd\<close>, which is a parameter: nothing below depends on how it rounds.
\<close>

subsection \<open>Voice profile table\<close>

record formant =
  frequency :: rat
  gain :: rat
  type :: string

record voice_characteristics =
  baseFrequency :: rat
  formants :: "formant list"
  emphasis :: rat
  breathiness :: rat
  syllableRate :: rat

text \<open>\<open>String.prototype.toLowerCase\<close> on code units below 256: the ASCII capitals and the
  Latin-1 capitals (all of 0xC0..0xDE but the multiplication sign 0xD7) move up by 32.\<close>

definition toLowerCaseChar :: "char \<Rightarrow> char" where
  "toLowerCaseChar c =
     (let n = (of_char c :: nat)
      in if (65 \<le> n \<and> n \<le> 90) \<or> (192 \<le> n \<and> n \<le> 222 \<and> n \<noteq> 215)
         then char_of (n + 32) else c)"

definition toLowerCase :: "string \<Rightarrow> string" where
  "toLowerCase s = map toLowerCaseChar s"

definition defaultCharacteristics :: voice_characteristics where
  "defaultCharacteristics =
     \<lparr> baseFrequency = 160,
       formants = [\<lparr> frequency = 500, gain = 1.0, type = ''sine'' \<rparr>,
                   \<lparr> frequency = 1500, gain = 0.5, type = ''sine'' \<rparr>,
                   \<lparr> frequency = 2500, gain = 0.25, type = ''sine'' \<rparr>],
       emphasis = 1.2, breathiness = 0.1, syllableRate = 4.0 \<rparr>"

definition getVoiceCharacteristics :: "string \<Rightarrow> voice_characteristics" where
  "getVoiceCharacteristics voiceId =
     (let v = toLowerCase voiceId in
      if v = ''alloy'' then
        \<lparr> baseFrequency = 175,
          formants = [\<lparr> frequency = 600, gain = 1.0, type = ''sine'' \<rparr>,
                      \<lparr> frequency = 1400, gain = 0.6, type = ''sine'' \<rparr>,
                      \<lparr> frequency = 2400, gain = 0.4, type = ''sine'' \<rparr>],
          emphasis = 1.1, breathiness = 0.15, syllableRate = 4.2 \<rparr>
      else if v = ''echo'' then
        \<lparr> baseFrequency = 120,
          formants = [\<lparr> frequency = 500, gain = 1.0, type = ''sine'' \<rparr>,
                      \<lparr> frequency = 1500, gain = 0.4, type = ''sine'' \<rparr>,
                      \<lparr> frequency = 2200, gain = 0.2, type = ''sine'' \<rparr>],
          emphasis = 1.4, breathiness = 0.05, syllableRate = 3.8 \<rparr>
      else if v = ''fable'' then
        \<lparr> baseFrequency = 140,
          formants = [\<lparr> frequency = 550, gain = 1.0, type = ''sine'' \<rparr>,
                      \<lparr> frequency = 1600, gain = 0.5, type = ''sine'' \<rparr>,
                      \<lparr> frequency = 2300, gain = 0.3, type = ''sine'' \<rparr>],
          emphasis = 1.5, breathiness = 0.1, syllableRate = 4.0 \<rparr>
      else if v = ''onyx'' then
        \<lparr> baseFrequency = 110,
          formants = [\<lparr> frequency = 450, gain = 1.0, type = ''sine'' \<rparr>,
                      \<lparr> frequency = 1300, gain = 0.4, type = ''sine'' \<rparr>,
                      \<lparr> frequency = 2100, gain = 0.15, type = ''sine'' \<rparr>],
          emphasis = 1.6, breathiness = 0.05, syllableRate = 3.5 \<rparr>
      else if v = ''nova'' then
        \<lparr> baseFrequency = 200,
          formants = [\<lparr> frequency = 650, gain = 1.0, type = ''sine'' \<rparr>,
                      \<lparr> frequency = 1700, gain = 0.6, type = ''sine'' \<rparr>,
                      \<lparr> frequency = 2500, gain = 0.4, type = ''sine'' \<rparr>],
          emphasis = 1.3, breathiness = 0.2, syllableRate = 4.4 \<rparr>
      else if v = ''shimmer'' then
        \<lparr> baseFrequency = 220,
          formants = [\<lparr> frequency = 700, gain = 1.0, type = ''sine'' \<rparr>,
                      \<lparr> frequency = 1800, gain = 0.7, type = ''sine'' \<rparr>,
                      \<lparr> frequency = 2600, gain = 0.5, type = ''sine'' \<rparr>],
          emphasis = 1.2, breathiness = 0.25, syllableRate = 4.3 \<rparr>
      else defaultCharacteristics)"

text \<open>The identifiers of the catalogue \<open>HIGH_QUALITY_VOICES\<close>.\<close>

definition builtinVoiceIds :: "string list" where
  "builtinVoiceIds = [''alloy'', ''echo'', ''fable'', ''onyx'', ''nova'', ''shimmer'']"

subsection \<open>Numbers, byte buffers and the \<open>DataView\<close> writers\<close>

text \<open>A JavaScript number: a finite binary64 value (a rational), or one of the three
  special values.\<close>

datatype jsnum = Finite rat | NaN | PosInfinity | NegInfinity

fun Math_min :: "jsnum \<Rightarrow> jsnum \<Rightarrow> jsnum" where
  "Math_min NaN y = NaN"
| "Math_min x NaN = NaN"
| "Math_min NegInfinity y = NegInfinity"
| "Math_min x NegInfinity = NegInfinity"
| "Math_min PosInfinity y = y"
| "Math_min x PosInfinity = x"
| "Math_min (Finite a) (Finite b) = Finite (min a b)"

fun Math_max :: "jsnum \<Rightarrow> jsnum \<Rightarrow> jsnum" where
  "Math_max NaN y = NaN"
| "Math_max x NaN = NaN"
| "Math_max PosInfinity y = PosInfinity"
| "Math_max x PosInfinity = PosInfinity"
| "Math_max NegInfinity y = y"
| "Math_max x NegInfinity = x"
| "Math_max (Finite a) (Finite b) = Finite (max a b)"

text \<open>The product of a number and a finite non-zero constant, without rounding. It is
  used for \<open>sample * 0x7FFF\<close> only, where \<open>sample\<close> is a binary32 value of a
  \<open>Float32Array\<close>: 24 significant bits times 15 bits fit the 53 bits of a binary64, so
  the product is exact.\<close>

fun times_const :: "jsnum \<Rightarrow> rat \<Rightarrow> jsnum" where
  "times_const (Finite a) k = Finite (a * k)"
| "times_const NaN k = NaN"
| "times_const PosInfinity k = (if 0 < k then PosInfinity else NegInfinity)"
| "times_const NegInfinity k = (if 0 < k then NegInfinity else PosInfinity)"

text \<open>\<open>ToIntegerOrInfinity\<close> followed by the modulo of an integer setter: a finite number
  is truncated towards zero, every other number counts as 0. The modulo itself is taken
  when the integer becomes bytes.\<close>

fun ToInteger :: "jsnum \<Rightarrow> int" where
  "ToInteger (Finite q) = (if 0 \<le> q then \<lfloor>q\<rfloor> else \<lceil>q\<rceil>)"
| "ToInteger NaN = 0"
| "ToInteger PosInfinity = 0"
| "ToInteger NegInfinity = 0"

type_synonym byte = "8 word"

text \<open>An \<open>ArrayBuffer\<close> with its \<open>DataView\<close> is the list of its bytes;
  \<open>new ArrayBuffer n\<close> is \<open>replicate n 0\<close>. A write that does not fit throws a
  \<open>RangeError\<close>. Every multi-byte write of the source is little-endian.\<close>

definition setUint8 :: "byte list \<Rightarrow> nat \<Rightarrow> int \<Rightarrow> byte list option" where
  "setUint8 view byteOffset v =
     (if byteOffset + 1 \<le> length view
      then Some (view[byteOffset := word_of_int v]) else None)"

definition setUint16 :: "byte list \<Rightarrow> nat \<Rightarrow> int \<Rightarrow> byte list option" where
  "setUint16 view byteOffset v =
     (if byteOffset + 2 \<le> length view
      then Some (view[byteOffset := word_of_int v,
                      byteOffset + 1 := word_of_int (v div 256)])
      else None)"

definition setUint32 :: "byte list \<Rightarrow> nat \<Rightarrow> int \<Rightarrow> byte list option" where
  "setUint32 view byteOffset v =
     (if byteOffset + 4 \<le> length view
      then Some (view[byteOffset := word_of_int v,
                      byteOffset + 1 := word_of_int (v div 256),
                      byteOffset + 2 := word_of_int (v div 65536),
                      byteOffset + 3 := word_of_int (v div 16777216)])
      else None)"

definition setInt16 :: "byte list \<Rightarrow> nat \<Rightarrow> jsnum \<Rightarrow> byte list option" where
  "setInt16 view byteOffset x = setUint16 view byteOffset (ToInteger x)"

fun writeString :: "byte list \<Rightarrow> nat \<Rightarrow> string \<Rightarrow> byte list option" where
  "writeString view offset [] = Some view"
| "writeString view offset (c # cs) =
     do { v \<leftarrow> setUint8 view offset (of_char c); writeString v (offset + 1) cs }"

subsection \<open>The WAV encoder\<close>

text \<open>The host's \<open>AudioBuffer\<close>. The attribute \<open>length\<close> (sample frames per channel) is
  the field \<open>length_frames\<close>; the samples are binary32 values.\<close>

record AudioBuffer =
  numberOfChannels :: nat
  length_frames :: nat
  sampleRate :: nat
  channelData :: "jsnum list list"

text \<open>A valid buffer has as many channel arrays as it says, each of \<open>length_frames\<close>
  finite samples.\<close>

definition valid_AudioBuffer :: "AudioBuffer \<Rightarrow> bool" where
  "valid_AudioBuffer B \<longleftrightarrow>
     length (channelData B) = numberOfChannels B
     \<and> list_all (\<lambda>ch. length ch = length_frames B
                       \<and> list_all (\<lambda>x. case x of Finite q \<Rightarrow> True | _ \<Rightarrow> False) ch)
          (channelData B)"

text \<open>\<open>getChannelData i\<close> throws an \<open>IndexSizeError\<close> for a channel that does not exist.\<close>

definition getChannelData :: "AudioBuffer \<Rightarrow> nat \<Rightarrow> jsnum list option" where
  "getChannelData B i =
     (if i < numberOfChannels B \<and> i < length (channelData B)
      then Some (channelData B ! i) else None)"

text \<open>Reading a typed array beyond its end gives \<open>undefined\<close>, which \<open>Math.min\<close> turns
  into \<open>NaN\<close>.\<close>

definition sampleAt :: "jsnum list \<Rightarrow> nat \<Rightarrow> jsnum" where
  "sampleAt ch i = (if i < length ch then ch ! i else NaN)"

text \<open>The loop that collects the channel arrays (lines 271-274).\<close>

function collectChannels :: "AudioBuffer \<Rightarrow> nat \<Rightarrow> nat \<Rightarrow> jsnum list list \<Rightarrow> jsnum list list option" where
  "collectChannels B numOfChan i channels =
     (if i < numOfChan
      then do { ch \<leftarrow> getChannelData B i; collectChannels B numOfChan (i + 1) (channels @ [ch]) }
      else Some channels)"
  by pat_completeness auto
termination
  by (relation "measure (\<lambda>(B, numOfChan, i, channels). numOfChan - i)") auto

text \<open>The inner loop over the channels of frame \<open>i\<close> (lines 278-283): it runs through
  the collected arrays in order. It returns the view and the advanced offset.\<close>

fun writeFrame :: "jsnum list list \<Rightarrow> nat \<Rightarrow> byte list \<Rightarrow> nat \<Rightarrow> (byte list \<times> nat) option" where
  "writeFrame [] i view offset = Some (view, offset)"
| "writeFrame (ch # chs) i view offset =
     (let sample = Math_max (Finite (- 1)) (Math_min (Finite 1) (sampleAt ch i))
      in do { v \<leftarrow> setInt16 view offset (times_const sample 32767);
              writeFrame chs i v (offset + 2) })"

text \<open>The outer loop over the frames (lines 277-284).\<close>

function writeFrames :: "jsnum list list \<Rightarrow> nat \<Rightarrow> nat \<Rightarrow> byte list \<Rightarrow> nat \<Rightarrow> byte list option" where
  "writeFrames channels len i view offset =
     (if i < len
      then do { (v, offset') \<leftarrow> writeFrame channels i view offset;
                writeFrames channels len (i + 1) v offset' }
      else Some view)"
  by pat_completeness auto
termination
  by (relation "measure (\<lambda>(channels, len, i, view, offset). len - i)") auto

declare collectChannels.simps [simp del]
declare writeFrames.simps [simp del]

definition exportToWavArrayBuffer :: "AudioBuffer \<Rightarrow> byte list option" where
  "exportToWavArrayBuffer audioBuffer =
     (let numOfChan = numberOfChannels audioBuffer;
          len = length_frames audioBuffer * numOfChan * 2;
          buffer = replicate (44 + len) (0 :: byte)
      in do {
        view \<leftarrow> writeString buffer 0 ''RIFF'';
        view \<leftarrow> setUint32 view 4 (int (36 + len));
        view \<leftarrow> writeString view 8 ''WAVE'';
        view \<leftarrow> writeString view 12 ''fmt '';
        view \<leftarrow> setUint32 view 16 16;
        view \<leftarrow> setUint16 view 20 1;
        view \<leftarrow> setUint16 view 22 (int numOfChan);
        view \<leftarrow> setUint32 view 24 (int (sampleRate audioBuffer));
        view \<leftarrow> setUint32 view 28 (int (sampleRate audioBuffer * numOfChan * 2));
        view \<leftarrow> setUint16 view 32 (int (numOfChan * 2));
        view \<leftarrow> setUint16 view 34 16;
        view \<leftarrow> writeString view 36 ''data'';
        view \<leftarrow> setUint32 view 40 (int len);
        channels \<leftarrow> collectChannels audioBuffer numOfChan 0 [];
        writeFrames channels (length_frames audioBuffer) 0 view 44
      })"

text \<open>A reader of the produced bytes (not part of the repository: the \<open>getInt16\<close> of a
  \<open>DataView\<close>, little-endian, that any PCM reader applies to the data chunk).\<close>

definition getInt16 :: "byte list \<Rightarrow> nat \<Rightarrow> int" where
  "getInt16 view byteOffset =
     (let u = uint (view ! byteOffset) + 256 * uint (view ! (byteOffset + 1))
      in if 32768 \<le> u then u - 65536 else u)"

text \<open>The two usual ways to turn a 16-bit sample back into a float: by the encoder's own
  scale 32767, or by 32768, the full scale of a 16-bit integer.\<close>

definition decode32767 :: "int \<Rightarrow> rat" where
  "decode32767 k = of_int k / 32767"

definition decode32768 :: "int \<Rightarrow> rat" where
  "decode32768 k = of_int k / 32768"

subsection \<open>The waveform synthesizer\<close>

text \<open>The binary64 operations that are not exact: \<open>rnd\<close> rounds the exact result of an
  arithmetic operation or of a decimal literal to binary64, \<open>Math_sin\<close> and \<open>Math_PI\<close>
  are the host's sine and its constant. All three are parameters.\<close>

record fpu =
  rnd :: "rat \<Rightarrow> rat"
  Math_sin :: "rat \<Rightarrow> rat"
  Math_PI :: rat

text \<open>Lines 297-305, for a finite rate other than zero.\<close>

definition calculateDuration :: "fpu \<Rightarrow> string \<Rightarrow> rat \<Rightarrow> rat" where
  "calculateDuration F text rate =
     (let characters = length text;
          words = rnd F (of_nat characters / 5)
      in rnd F (rnd F (rnd F (words / 150) * 60) / rate))"

text \<open>The fade of the fallback tone (lines 223-228) at sample \<open>i\<close>; \<open>srate\<close> is the
  source's \<open>sampleRate\<close>.\<close>

definition beepAmplitude :: "fpu \<Rightarrow> nat \<Rightarrow> nat \<Rightarrow> nat \<Rightarrow> rat" where
  "beepAmplitude F srate numSamples i =
     (let fade = rnd F (rnd F 0.05 * of_nat srate)
      in if of_nat i < fade then rnd F (of_nat i / fade)
         else if rnd F (of_nat numSamples - fade) < of_nat i
         then rnd F (of_nat (numSamples - i) / fade)
         else rnd F 0.8)"

text \<open>The loop that writes the tone (lines 220-230).\<close>

function beepSamples :: "fpu \<Rightarrow> nat \<Rightarrow> nat \<Rightarrow> nat \<Rightarrow> byte list \<Rightarrow> byte list option" where
  "beepSamples F srate numSamples i view =
     (if i < numSamples
      then (let sample = Math_sin F (rnd F (rnd F (rnd F (of_nat (i * 440) * Math_PI F) * 2)
                                             / of_nat srate));
                amplitude = beepAmplitude F srate numSamples i
            in do { v \<leftarrow> setInt16 view (44 + i * 2)
                           (Finite (rnd F (rnd F (sample * amplitude) * 32767)));
                    beepSamples F srate numSamples (i + 1) v })
      else Some view)"
  by pat_completeness auto
termination
  by (relation "measure (\<lambda>(F, srate, numSamples, i, view). numSamples - i)") auto

declare beepSamples.simps [simp del]

text \<open>Lines 197-233. The duration 0.5 is a binary64 value, and so is its product with an
  integer sample rate.\<close>

definition createFallbackBeep :: "fpu \<Rightarrow> nat \<Rightarrow> byte list option" where
  "createFallbackBeep F srate =
     (let duration = (1 / 2 :: rat);
          numSamples = nat \<lfloor>of_nat srate * duration\<rfloor>;
          buffer = replicate (44 + numSamples * 2) (0 :: byte)
      in do {
        view \<leftarrow> writeString buffer 0 ''RIFF'';
        view \<leftarrow> setUint32 view 4 (int (36 + numSamples * 2));
        view \<leftarrow> writeString view 8 ''WAVE'';
        view \<leftarrow> writeString view 12 ''fmt '';
        view \<leftarrow> setUint32 view 16 16;
        view \<leftarrow> setUint16 view 20 1;
        view \<leftarrow> setUint16 view 22 1;
        view \<leftarrow> setUint32 view 24 (int srate);
        view \<leftarrow> setUint32 view 28 (int (srate * 2));
        view \<leftarrow> setUint16 view 32 2;
        view \<leftarrow> setUint16 view 34 16;
        view \<leftarrow> writeString view 36 ''data'';
        view \<leftarrow> setUint32 view 40 (int (numSamples * 2));
        beepSamples F srate numSamples 0 view
      })"

text \<open>What the host's audio interfaces answer to \<open>synthesizeTextToAudio\<close>:
  \<^item> \<open>newAudioContext\<close>: the sample rate of the new \<open>AudioContext\<close>, or \<open>None\<close> when its
    constructor throws;
  \<^item> \<open>newOfflineAudioContext length sampleRate\<close>: whether the mono
    \<open>OfflineAudioContext\<close> of that length can be constructed;
  \<^item> \<open>scheduleGraph profile duration text\<close>: whether lines 127-163 run without an
    exception; they create the oscillator and the gain node and schedule the envelope
    and one frequency change per sentence of the text (a negative automation time, for
    one, throws);
  \<^item> \<open>startRendering length sampleRate profile duration text\<close>: the channel arrays of
    the rendered buffer, or \<open>None\<close> when rendering rejects.\<close>

record audio_host =
  fp :: fpu
  newAudioContext :: "nat option"
  newOfflineAudioContext :: "int \<Rightarrow> nat \<Rightarrow> bool"
  scheduleGraph :: "voice_characteristics \<Rightarrow> rat \<Rightarrow> string \<Rightarrow> bool"
  startRendering :: "int \<Rightarrow> nat \<Rightarrow> voice_characteristics \<Rightarrow> rat \<Rightarrow> string
                     \<Rightarrow> jsnum list list option"

text \<open>The frame count before and after the clamp (lines 109-114).\<close>

definition frameCount :: "fpu \<Rightarrow> string \<Rightarrow> rat \<Rightarrow> nat \<Rightarrow> int" where
  "frameCount F text rate srate =
     \<lceil>rnd F (calculateDuration F text rate * of_nat srate)\<rceil>"

definition safeFrameCount :: "fpu \<Rightarrow> string \<Rightarrow> rat \<Rightarrow> nat \<Rightarrow> int" where
  "safeFrameCount F text rate srate =
     min (frameCount F text rate srate) (10 * int srate)"

text \<open>Lines 104-166 of \<open>synthesizeTextToAudio\<close>, up to the end of the rendering. The
  result is \<open>None\<close> when a statement before the rendering throws; otherwise it is the
  sample rate of the context together with the rendered buffer, or with \<open>None\<close> when
  the rendering rejects. The rendered buffer is mono and has the length and the sample
  rate that the \<open>OfflineAudioContext\<close> was constructed with.\<close>

definition renderSpeech :: "audio_host \<Rightarrow> string \<Rightarrow> string \<Rightarrow> rat \<Rightarrow> (nat \<times> AudioBuffer option) option" where
  "renderSpeech H text voice rate =
     (case newAudioContext H of
        None \<Rightarrow> None
      | Some srate \<Rightarrow>
          (let duration = calculateDuration (fp H) text rate;
               len = safeFrameCount (fp H) text rate srate;
               voiceCharacteristics = getVoiceCharacteristics voice
           in if \<not> newOfflineAudioContext H len srate then None
              else if \<not> scheduleGraph H voiceCharacteristics duration text then None
              else Some (srate,
                     map_option
                       (\<lambda>channels. \<lparr> numberOfChannels = 1, length_frames = nat len,
                                       sampleRate = srate, channelData = channels \<rparr>)
                       (startRendering H len srate voiceCharacteristics duration text))))"

text \<open>Lines 99-194. The inner handlers return the fallback tone when the rendering or the
  export throws; an exception before the rendering, or in a handler, reaches the outer
  handler, which returns a fresh buffer of 44 zero bytes. (Closing the context in the
  \<open>finally\<close> block has no effect on the result.)\<close>

definition synthesizeTextToAudio :: "audio_host \<Rightarrow> string \<Rightarrow> string \<Rightarrow> rat \<Rightarrow> byte list option" where
  "synthesizeTextToAudio H text voice rate =
     (case (case renderSpeech H text voice rate of
              None \<Rightarrow> None
            | Some (srate, None) \<Rightarrow> createFallbackBeep (fp H) srate
            | Some (srate, Some renderedBuffer) \<Rightarrow>
                (case exportToWavArrayBuffer renderedBuffer of
                   Some audioData \<Rightarrow> Some audioData
                 | None \<Rightarrow> createFallbackBeep (fp H) srate))
      of Some audioData \<Rightarrow> Some audioData
       | None \<Rightarrow> Some (replicate 44 0))"

subsection \<open>Regular expressions and the markdown clean-up\<close>

text \<open>The regular expressions of \<open>speak\<close> as data, with the backtracking semantics of
  ECMAScript: \<open>rmatch r (s, g)\<close> lists, in the order in which the engine tries them,
  the ways in which \<open>r\<close> matches a prefix of \<open>s\<close>; each is the rest of the string with
  the text last captured by the group (\<open>g\<close> before the match). The first element is the
  match that the engine reports. An iteration of a star that consumes nothing is not
  tried again. None of the expressions of \<open>speak\<close> has an anchor or a look-around, so a
  match at a position depends on the text from that position only.\<close>

datatype regex =
    In "char list"
  | NotIn "char list"
  | Eps
  | Cat regex regex
  | Alt regex regex
  | Star regex
  | LazyStar regex
  | Group regex

fun rmatch :: "regex \<Rightarrow> string \<times> string option \<Rightarrow> (string \<times> string option) list" where
  "rmatch (In cs) (s, g) = (case s of [] \<Rightarrow> [] | c # t \<Rightarrow> if c \<in> set cs then [(t, g)] else [])"
| "rmatch (NotIn cs) (s, g) =
     (case s of [] \<Rightarrow> [] | c # t \<Rightarrow> if c \<notin> set cs then [(t, g)] else [])"
| "rmatch Eps x = [x]"
| "rmatch (Cat a b) x = concat (map (rmatch b) (rmatch a x))"
| "rmatch (Alt a b) x = rmatch a x @ rmatch b x"
| "rmatch (Star a) (s, g) =
     concat (map (\<lambda>(s', g'). if length s' < length s then rmatch (Star a) (s', g') else [])
               (rmatch a (s, g))) @ [(s, g)]"
| "rmatch (LazyStar a) (s, g) =
     (s, g) # concat (map (\<lambda>(s', g'). if length s' < length s then rmatch (LazyStar a) (s', g')
                                         else [])
                        (rmatch a (s, g)))"
| "rmatch (Group a) (s, g) =
     map (\<lambda>(s', _). (s', Some (take (length s - length s') s))) (rmatch a (s, g))"

text \<open>\<open>String.prototype.replace\<close> with a global expression: the matches are sought from
  left to right, each after the end of the one before, and replaced by \<open>rep\<close> of the
  captured group; after an empty match the search moves on by one code unit.\<close>

fun replaceAll :: "regex \<Rightarrow> (string option \<Rightarrow> string) \<Rightarrow> string \<Rightarrow> string" where
  "replaceAll r rep s =
     (case rmatch r (s, None) of
        [] \<Rightarrow> (case s of [] \<Rightarrow> [] | c # t \<Rightarrow> c # replaceAll r rep t)
      | (s', g) # _ \<Rightarrow>
          if length s' < length s then rep g @ replaceAll r rep s'
          else rep g @ (case s of [] \<Rightarrow> [] | c # t \<Rightarrow> c # replaceAll r rep t))"

declare replaceAll.simps [simp del]

text \<open>Derived forms: a literal string, \<open>r+\<close>, and the greedy \<open>r{0,n}\<close>.\<close>

fun Lit :: "string \<Rightarrow> regex" where
  "Lit [] = Eps"
| "Lit (c # cs) = Cat (In [c]) (Lit cs)"

definition Plus :: "regex \<Rightarrow> regex" where
  "Plus r = Cat r (Star r)"

fun UpTo :: "nat \<Rightarrow> regex \<Rightarrow> regex" where
  "UpTo 0 r = Eps"
| "UpTo (Suc n) r = Alt (Cat r (UpTo n r)) Eps"

text \<open>The classes \<open>\s\<close>, \<open>\d\<close>, \<open>.\<close> and \<open>[\s\S]\<close> on code units below 256.\<close>

definition whiteSpace :: "char list" where
  "whiteSpace = [CHR 0x09, CHR 0x0A, CHR 0x0B, CHR 0x0C, CHR 0x0D, CHR 0x20, CHR 0xA0]"

definition Space :: regex where
  "Space = In whiteSpace"

definition Digit :: regex where
  "Digit = In ''0123456789''"

definition Dot :: regex where
  "Dot = NotIn [CHR 0x0A, CHR 0x0D]"

definition AnyChar :: regex where
  "AnyChar = NotIn []"

text \<open>The nine expressions of lines 621-629, in order.\<close>

definition codeBlock :: regex where
  "codeBlock = Cat (Lit ''```'') (Cat (LazyStar AnyChar) (Lit ''```''))"

definition inlineCode :: regex where
  "inlineCode = Cat (Lit ''`'') (Cat (Star (NotIn ''`'')) (Lit ''`''))"

definition imageMarkdown :: regex where
  "imageMarkdown =
     Cat (Lit ''!['') (Cat (LazyStar Dot) (Cat (Lit ''](''  ) (Cat (LazyStar Dot) (Lit '')''))))"

definition linkMarkdown :: regex where
  "linkMarkdown =
     Cat (Lit ''['') (Cat (Group (Plus (NotIn '']''))) (Cat (Lit ''](''  )
       (Cat (Plus (NotIn '')'')) (Lit '')''))))"

definition heading :: regex where
  "heading = Cat (Lit ''#'') (Cat (UpTo 5 (Lit ''#'')) (Plus Space))"

definition emphasisMarks :: regex where
  "emphasisMarks =
     Alt (Lit ''**'') (Alt (Lit ''*'') (Alt (Lit ''__'') (Alt (Lit ''_'') (Alt (Lit ''~~'')
       (Lit ''`'')))))"

definition listItem :: regex where
  "listItem = Cat (In [CHR 0x0A]) (Cat (Star Space) (Cat (In ''-*+'') (Plus Space)))"

definition numberedItem :: regex where
  "numberedItem =
     Cat (In [CHR 0x0A]) (Cat (Star Space) (Cat (Plus Digit) (Cat (Lit ''.'') (Plus Space))))"

definition whiteSpaceRun :: regex where
  "whiteSpaceRun = Cat Space (Cat Space (Star Space))"

definition trim :: "string \<Rightarrow> string" where
  "trim s = rev (dropWhile (\<lambda>c. c \<in> set whiteSpace) (rev (dropWhile (\<lambda>c. c \<in> set whiteSpace) s)))"

text \<open>Lines 620-630: the text that is spoken.\<close>

definition cleanMarkdown :: "string \<Rightarrow> string" where
  "cleanMarkdown text =
     trim
      (replaceAll whiteSpaceRun (\<lambda>_. '' '')
      (replaceAll numberedItem (\<lambda>_. ''. '')
      (replaceAll listItem (\<lambda>_. ''. '')
      (replaceAll emphasisMarks (\<lambda>_. [])
      (replaceAll heading (\<lambda>_. [])
      (replaceAll linkMarkdown (\<lambda>g. case g of None \<Rightarrow> [] | Some t \<Rightarrow> t)
      (replaceAll imageMarkdown (\<lambda>_. [])
      (replaceAll inlineCode (\<lambda>_. [])
      (replaceAll codeBlock (\<lambda>_. []) text)))))))))"

subsection \<open>The persistent cache\<close>

text \<open>Lines 602-610. The hash is a 32-bit integer: \<open>hash << 5\<close> and \<open>hash |= 0\<close> wrap.\<close>

fun hashText :: "32 word \<Rightarrow> string \<Rightarrow> 32 word" where
  "hashText hash [] = hash"
| "hashText hash (c # cs) = hashText ((push_bit 5 hash - hash) + of_nat (of_char c)) cs"

fun digits :: "nat \<Rightarrow> string" where
  "digits n = (if n < 10 then [char_of (48 + n)] else digits (n div 10) @ [char_of (48 + n mod 10)])"

declare digits.simps [simp del]

definition Number_toString :: "int \<Rightarrow> string" where
  "Number_toString k = (if k < 0 then CHR ''-'' # digits (nat (- k)) else digits (nat k))"

definition generateCacheKey :: "string \<Rightarrow> string \<Rightarrow> string" where
  "generateCacheKey text voiceId =
     voiceId @ ''_'' @ Number_toString (sint (hashText 0 text)) @ ''_'' @ take 20 text"

text \<open>A record of the object store \<open>audioCache\<close> and one of the store \<open>ttsStats\<close>
  (lines 579-595); the times are milliseconds.\<close>

record CachedItem =
  item_key :: string
  item_timestamp :: int
  item_voice :: string
  item_textLength :: nat
  item_audioData :: "byte list"

record UsageStat =
  stat_date :: int
  stat_voice :: string
  stat_textLength :: nat
  stat_generated :: bool

record cache_db =
  audioCache :: "string \<rightharpoonup> CachedItem"
  ttsStats :: "UsageStat list"

subsection \<open>The hook: state, host, \<open>stop\<close> and \<open>speak\<close>\<close>

record TTSOptions =
  enabled :: bool
  opt_voice :: string
  opt_rate :: rat

text \<open>The audio element and the native speech engine, as far as the hook uses them.\<close>

record audio_element =
  src :: "byte list option"
  paused :: bool
  currentTime :: rat
  playbackRate :: rat

record speech_synthesis =
  speaking :: bool
  utterances :: "string list"

text \<open>What a call does to its environment, in order: a lookup by \<open>getFromCache\<close>, a
  record put by \<open>saveToCache\<close>, a call of \<open>synthesizeTextToAudio\<close> (the only caller of
  the encoder), an audio element that starts to play the given bytes, and an utterance
  handed to the native engine.\<close>

datatype effect =
    CacheRead string
  | CacheWrite string
  | Synthesis string string rat
  | Playback "byte list"
  | NativeUtterance string

text \<open>The state of the hook: the four state variables, the references (\<open>None\<close> is a
  \<open>null\<close> reference: no native engine, or a cache that did not open) and the effects so
  far.\<close>

record tts_state =
  isSpeaking :: bool
  available :: bool
  error :: "string option"
  isLoading :: bool
  audioRef :: "audio_element option"
  synthesisRef :: "speech_synthesis option"
  cacheDBRef :: "cache_db option"
  effects :: "effect list"

text \<open>What the host answers during one call of \<open>speak\<close>: the audio interfaces, the clock
  at the cache read and at the cache write, whether the read or the write of the store
  fails, whether making the blob URL throws and whether \<open>play()\<close> rejects.\<close>

record host =
  audio :: audio_host
  clock_read :: int
  clock_write :: int
  storeReadFails :: bool
  storeWriteFails :: bool
  blobFails :: bool
  playRejected :: bool

text \<open>Lines 762-773.\<close>

definition stop :: "tts_state \<Rightarrow> tts_state" where
  "stop st =
     (let st1 = (case audioRef st of
                   None \<Rightarrow> st
                 | Some a \<Rightarrow> st\<lparr> audioRef := Some (a\<lparr> paused := True, currentTime := 0 \<rparr>) \<rparr>);
          st2 = (case synthesisRef st1 of
                   None \<Rightarrow> st1
                 | Some sy \<Rightarrow>
                     if speaking sy
                     then st1\<lparr> synthesisRef := Some (sy\<lparr> speaking := False, utterances := [] \<rparr>) \<rparr>
                     else st1)
      in st2\<lparr> isSpeaking := False \<rparr>)"

text \<open>Lines 540-567: the retention window is 14 days.\<close>

definition getFromCache :: "host \<Rightarrow> tts_state \<Rightarrow> string \<Rightarrow> byte list option" where
  "getFromCache H st cacheKey =
     (case cacheDBRef st of
        None \<Rightarrow> None
      | Some db \<Rightarrow>
          if storeReadFails H then None
          else (case audioCache db cacheKey of
                  None \<Rightarrow> None
                | Some result \<Rightarrow>
                    if clock_read H - item_timestamp result < 14 * 24 * 60 * 60 * 1000
                    then Some (item_audioData result) else None))"

text \<open>Lines 570-599: a failure is logged, never thrown.\<close>

definition saveToCache :: "host \<Rightarrow> string \<Rightarrow> byte list \<Rightarrow> string \<Rightarrow> string \<Rightarrow> tts_state \<Rightarrow> tts_state" where
  "saveToCache H cacheKey bytes text voiceId st =
     (case cacheDBRef st of
        None \<Rightarrow> st
      | Some db \<Rightarrow>
          if storeWriteFails H then st
          else st\<lparr> cacheDBRef := Some (db\<lparr>
                       audioCache := (audioCache db)(cacheKey \<mapsto>
                         \<lparr> item_key = cacheKey, item_timestamp = clock_write H,
                           item_voice = voiceId, item_textLength = length text,
                           item_audioData = bytes \<rparr>),
                       ttsStats := ttsStats db @
                         [\<lparr> stat_date = clock_write H, stat_voice = voiceId,
                            stat_textLength = length text, stat_generated = True \<rparr>] \<rparr>),
                   effects := effects st @ [CacheWrite cacheKey] \<rparr>)"

text \<open>Lines 704-753. The choice of the native voice only sets a field of the utterance
  and is left out; the utterance is taken to start, which sets \<open>isSpeaking\<close>.\<close>

definition useBrowserTTS :: "tts_state \<Rightarrow> string \<Rightarrow> tts_state" where
  "useBrowserTTS st text =
     (case synthesisRef st of
        None \<Rightarrow> st\<lparr> error := Some ''Speech synthesis not available'' \<rparr>
      | Some sy \<Rightarrow>
          st\<lparr> synthesisRef := Some (sy\<lparr> speaking := True, utterances := utterances sy @ [text] \<rparr>),
              isSpeaking := True,
              effects := effects st @ [NativeUtterance text] \<rparr>)"

text \<open>Lines 674-701. When \<open>play()\<close> rejects, the apology is spoken by an utterance without
  handlers.\<close>

definition playAudioBuffer :: "host \<Rightarrow> TTSOptions \<Rightarrow> byte list \<Rightarrow> tts_state \<Rightarrow> tts_state" where
  "playAudioBuffer H options bytes st =
     (if blobFails H
      then useBrowserTTS (st\<lparr> error := Some ''Error playing audio'' \<rparr>)
             ''Audio playback failed. Using fallback voice.''
      else (case audioRef st of
              None \<Rightarrow> st
            | Some a \<Rightarrow>
                (let a' = a\<lparr> src := Some bytes, playbackRate := opt_rate options \<rparr>
                 in if playRejected H
                    then (let st' = st\<lparr> audioRef := Some a',
                                        error := Some ''Failed to play audio. Try again or check browser settings.'',
                                        isSpeaking := False \<rparr>
                          in case synthesisRef st' of
                               None \<Rightarrow> st'
                             | Some sy \<Rightarrow>
                                 st'\<lparr> synthesisRef := Some (sy\<lparr> speaking := True,
                                          utterances := utterances sy
                                            @ [''Audio playback failed. Using fallback voice.''] \<rparr>),
                                      effects := effects st'
                                        @ [NativeUtterance ''Audio playback failed. Using fallback voice.''] \<rparr>)
                    else st\<lparr> audioRef := Some (a'\<lparr> paused := False \<rparr>),
                            isSpeaking := True,
                            effects := effects st @ [Playback bytes] \<rparr>)))"

text \<open>Lines 619-670 of \<open>speak\<close>: the flow after \<open>stop()\<close>. No statement of the outer
  \<open>try\<close> block throws (every callee catches its own exceptions), so the outer handler
  is never entered; the inner handler is the case \<open>None\<close> of the synthesis.\<close>

definition speakFlow :: "host \<Rightarrow> TTSOptions \<Rightarrow> string \<Rightarrow> tts_state \<Rightarrow> tts_state" where
  "speakFlow H options text st =
     (let cleanText = cleanMarkdown text
      in if cleanText = [] then st
         else
           (let st1 = st\<lparr> isLoading := True, error := None \<rparr>;
                cacheKey = generateCacheKey cleanText (opt_voice options);
                cachedAudio = getFromCache H st1 cacheKey;
                st2 = st1\<lparr> effects := effects st1 @ [CacheRead cacheKey] \<rparr>;
                st3 = (case cachedAudio of
                         Some bytes \<Rightarrow> playAudioBuffer H options bytes st2
                       | None \<Rightarrow>
                           (let st2' = st2\<lparr> effects := effects st2
                                          @ [Synthesis cleanText (opt_voice options) (opt_rate options)] \<rparr>
                            in case synthesizeTextToAudio (audio H) cleanText (opt_voice options)
                                      (opt_rate options) of
                                 Some bytes \<Rightarrow>
                                   playAudioBuffer H options bytes
                                     (saveToCache H cacheKey bytes cleanText (opt_voice options) st2')
                               | None \<Rightarrow> useBrowserTTS st2' cleanText))
            in st3\<lparr> isLoading := False \<rparr>))"

text \<open>Lines 613-671.\<close>

definition speak :: "host \<Rightarrow> TTSOptions \<Rightarrow> string \<Rightarrow> tts_state \<Rightarrow> tts_state" where
  "speak H options text st =
     (if \<not> enabled options \<or> \<not> available st then st
      else speakFlow H options text (stop st))"

text \<open>The number of sound sources that are playing: the audio element and the native
  engine.\<close>

definition audible :: "tts_state \<Rightarrow> nat" where
  "audible st =
     (case audioRef st of None \<Rightarrow> 0 | Some a \<Rightarrow> if paused a then 0 else 1)
     + (case synthesisRef st of None \<Rightarrow> 0 | Some sy \<Rightarrow> if speaking sy then 1 else 0)"

fun startsSound :: "effect \<Rightarrow> bool" where
  "startsSound (Playback bytes) = True"
| "startsSound (NativeUtterance text) = True"
| "startsSound _ = False"

fun synthesisWork :: "effect \<Rightarrow> bool" where
  "synthesisWork (Synthesis text voiceId r) = True"
| "synthesisWork (CacheWrite k) = True"
| "synthesisWork _ = False"

text \<open>The audio data that the store holds under a key, whatever its age.\<close>

definition cachedBytes :: "tts_state \<Rightarrow> string \<Rightarrow> byte list option" where
  "cachedBytes st cacheKey =
     (case cacheDBRef st of
        None \<Rightarrow> None
      | Some db \<Rightarrow> map_option item_audioData (audioCache db cacheKey))"

subsection \<open>Overlapping calls of \<open>speak\<close>\<close>

text \<open>\<open>speak\<close> is an \<open>async\<close> function. It runs without interruption up to an \<open>await\<close>
  and is suspended there: at line 642 (the cache lookup, whose request sees the store as
  it is when the request is made), at line 651 (the synthesis) and at line 654 (the cache
  write, with the audio data in hand). Other calls of \<open>speak\<close> can run in between;
  the function \<open>speak\<close> above is a call that nothing interrupts.\<close>

datatype stage = AwaitCache "cache_db option" | AwaitSynthesis | AwaitSave "byte list"

text \<open>A suspended call: the options that it closed over, the cleaned text and the
  \<open>await\<close> at which it waits.\<close>

record pending_call =
  call_options :: TTSOptions
  call_text :: string
  call_stage :: stage

text \<open>The hook with its suspended calls. \<open>play()\<close> returns a promise that the host
  settles later: \<open>playsStarted\<close> counts the calls of \<open>play()\<close> that returned a promise
  and numbers them, \<open>pendingPlays\<close> are the promises that are not settled yet.\<close>

record hook =
  hook_state :: tts_state
  calls :: "pending_call list"
  playsStarted :: nat
  pendingPlays :: "nat list"

text \<open>What can happen next: \<open>speak\<close> is called; the host completes the \<open>await\<close> of the
  suspended call number \<open>i\<close>, and answers as \<open>H\<close> in the segment of \<open>speak\<close> that runs
  then (in this event \<open>playRejected H\<close> is a \<open>play()\<close> that is rejected at once); the
  host fulfils the pending promise of \<open>play()\<close> number \<open>n\<close>; or it rejects it (with an
  \<open>AbortError\<close> when a \<open>pause()\<close> or a new \<open>src\<close> interrupts the start, for instance),
  which runs the handler of lines 684-694.\<close>

datatype event =
    SpeakCalled TTSOptions string
  | AwaitDone nat host
  | PlayFulfilled nat
  | PlayFailedLater nat

text \<open>Lines 613-642: \<open>speak\<close> up to its first \<open>await\<close>.\<close>

definition beginSpeak :: "TTSOptions \<Rightarrow> string \<Rightarrow> hook \<Rightarrow> hook" where
  "beginSpeak options text h =
     (if \<not> enabled options \<or> \<not> available (hook_state h) then h
      else
        (let st = stop (hook_state h);
             cleanText = cleanMarkdown text
         in if cleanText = [] then h\<lparr> hook_state := st \<rparr>
            else h\<lparr> hook_state := st\<lparr> isLoading := True, error := None \<rparr>,
                    calls := calls h
                      @ [\<lparr> call_options = options, call_text = cleanText,
                           call_stage = AwaitCache (cacheDBRef st) \<rparr>] \<rparr>))"

text \<open>The end of a call: \<open>playAudioBuffer\<close>, then the \<open>finally\<close> block of line 669. The
  call number \<open>i\<close> leaves the list; a \<open>play()\<close> that returned a promise is numbered.\<close>

definition playAndFinish :: "host \<Rightarrow> nat \<Rightarrow> TTSOptions \<Rightarrow> byte list \<Rightarrow> hook \<Rightarrow> hook" where
  "playAndFinish H i options bytes h =
     (let st = hook_state h;
          started = (\<not> blobFails H \<and> audioRef st \<noteq> None \<and> \<not> playRejected H)
      in h\<lparr> hook_state := (playAudioBuffer H options bytes st)\<lparr> isLoading := False \<rparr>,
             calls := take i (calls h) @ drop (Suc i) (calls h),
             playsStarted := (if started then playsStarted h + 1 else playsStarted h),
             pendingPlays := (if started then pendingPlays h @ [playsStarted h + 1]
                              else pendingPlays h) \<rparr>)"

text \<open>The segment of \<open>speak\<close> that runs when the \<open>await\<close> of the suspended call \<open>c\<close>,
  number \<open>i\<close>, completes: lines 642-651, lines 651-654 or lines 654-670.\<close>

definition resumeCall :: "host \<Rightarrow> nat \<Rightarrow> pending_call \<Rightarrow> hook \<Rightarrow> hook" where
  "resumeCall H i c h =
     (let st = hook_state h;
          options = call_options c;
          cleanText = call_text c;
          cacheKey = generateCacheKey cleanText (opt_voice options)
      in case call_stage c of
           AwaitCache db \<Rightarrow>
             (let cachedAudio = getFromCache H (st\<lparr> cacheDBRef := db \<rparr>) cacheKey;
                  st2 = st\<lparr> effects := effects st @ [CacheRead cacheKey] \<rparr>
              in case cachedAudio of
                   Some bytes \<Rightarrow> playAndFinish H i options bytes (h\<lparr> hook_state := st2 \<rparr>)
                 | None \<Rightarrow>
                     h\<lparr> hook_state := st2\<lparr> effects := effects st2
                            @ [Synthesis cleanText (opt_voice options) (opt_rate options)] \<rparr>,
                        calls := (calls h)[i := c\<lparr> call_stage := AwaitSynthesis \<rparr>] \<rparr>)
         | AwaitSynthesis \<Rightarrow>
             (case synthesizeTextToAudio (audio H) cleanText (opt_voice options)
                     (opt_rate options) of
                Some bytes \<Rightarrow>
                  h\<lparr> hook_state := saveToCache H cacheKey bytes cleanText (opt_voice options) st,
                     calls := (calls h)[i := c\<lparr> call_stage := AwaitSave bytes \<rparr>] \<rparr>
              | None \<Rightarrow>
                  h\<lparr> hook_state := (useBrowserTTS st cleanText)\<lparr> isLoading := False \<rparr>,
                     calls := take i (calls h) @ drop (Suc i) (calls h) \<rparr>)
         | AwaitSave bytes \<Rightarrow> playAndFinish H i options bytes h)"

text \<open>Lines 685-693: the handler of a rejected \<open>play()\<close>.\<close>

definition playRejection :: "tts_state \<Rightarrow> tts_state" where
  "playRejection st =
     (let st' = st\<lparr> error := Some ''Failed to play audio. Try again or check browser settings.'',
                     isSpeaking := False \<rparr>
      in case synthesisRef st' of
           None \<Rightarrow> st'
         | Some sy \<Rightarrow>
             st'\<lparr> synthesisRef := Some (sy\<lparr> speaking := True,
                      utterances := utterances sy
                        @ [''Audio playback failed. Using fallback voice.''] \<rparr>),
                  effects := effects st'
                    @ [NativeUtterance ''Audio playback failed. Using fallback voice.''] \<rparr>)"

definition step :: "event \<Rightarrow> hook \<Rightarrow> hook" where
  "step e h =
     (case e of
        SpeakCalled options text \<Rightarrow> beginSpeak options text h
      | AwaitDone i H \<Rightarrow> if i < length (calls h) then resumeCall H i (calls h ! i) h else h
      | PlayFulfilled n \<Rightarrow>
          if n \<in> set (pendingPlays h) then h\<lparr> pendingPlays := removeAll n (pendingPlays h) \<rparr>
          else h
      | PlayFailedLater n \<Rightarrow>
          if n \<in> set (pendingPlays h)
          then h\<lparr> hook_state := playRejection (hook_state h),
                  pendingPlays := removeAll n (pendingPlays h) \<rparr>
          else h)"

text \<open>A run of the hook: the events in order.\<close>

fun run :: "event list \<Rightarrow> hook \<Rightarrow> hook" where
  "run [] h = h"
| "run (e # es) h = run es (step e h)"

text \<open>The events in which no start of a playback fails: the blob URL is made, and
  \<open>play()\<close> is rejected neither at once nor later.\<close>

fun playbackSucceeds :: "event \<Rightarrow> bool" where
  "playbackSucceeds (SpeakCalled options text) = True"
| "playbackSucceeds (AwaitDone i H) = (\<not> blobFails H \<and> \<not> playRejected H)"
| "playbackSucceeds (PlayFulfilled n) = True"
| "playbackSucceeds (PlayFailedLater n) = False"

text \<open>The native engine is silent.\<close>

definition nativeSilent :: "tts_state \<Rightarrow> bool" where
  "nativeSilent st = (case synthesisRef st of None \<Rightarrow> True | Some sy \<Rightarrow> \<not> speaking sy)"

text \<open>A hook in which no call is suspended and no promise is pending.\<close>

definition hookOf :: "tts_state \<Rightarrow> hook" where
  "hookOf st = \<lparr> hook_state = st, calls = [], playsStarted = 0, pendingPlays = [] \<rparr>"

text \<open>What holds between any two events of a run in which no start of a playback fails:
  at most one source is audible, and the native engine is silent while a call is
  suspended.\<close>

definition quiet :: "hook \<Rightarrow> bool" where
  "quiet h = (audible (hook_state h) \<le> 1 \<and> (calls h = [] \<or> nativeSilent (hook_state h)))"

subsection \<open>Hosts and states of the examples\<close>

text \<open>Arithmetic without rounding, with a sine that is constantly 0 and 355/113 for pi.\<close>

definition sampleFpu :: fpu where
  "sampleFpu = \<lparr> rnd = (\<lambda>x. x), Math_sin = (\<lambda>x. 0), Math_PI = 355 / 113 \<rparr>"

text \<open>Three audio hosts: one whose \<open>AudioContext\<close> cannot be constructed, one that runs
  at 8 Hz and whose rendering rejects, and one that runs at 8 Hz and renders silence.\<close>

definition noContextHost :: audio_host where
  "noContextHost =
     \<lparr> fp = sampleFpu, newAudioContext = None,
       newOfflineAudioContext = (\<lambda>len srate. True),
       scheduleGraph = (\<lambda>profile duration text. True),
       startRendering = (\<lambda>len srate profile duration text. None) \<rparr>"

definition renderFailsHost :: audio_host where
  "renderFailsHost =
     \<lparr> fp = sampleFpu, newAudioContext = Some 8,
       newOfflineAudioContext = (\<lambda>len srate. True),
       scheduleGraph = (\<lambda>profile duration text. True),
       startRendering = (\<lambda>len srate profile duration text. None) \<rparr>"

definition silenceHost :: audio_host where
  "silenceHost =
     \<lparr> fp = sampleFpu, newAudioContext = Some 8,
       newOfflineAudioContext = (\<lambda>len srate. True),
       scheduleGraph = (\<lambda>profile duration text. True),
       startRendering = (\<lambda>len srate profile duration text.
                           Some [replicate (nat len) (Finite 0)]) \<rparr>"

text \<open>A host with a working store and a working audio element, whose clock shows
  \<open>now\<close>.\<close>

definition hostAt :: "audio_host \<Rightarrow> int \<Rightarrow> host" where
  "hostAt A now =
     \<lparr> audio = A, clock_read = now, clock_write = now, storeReadFails = False,
       storeWriteFails = False, blobFails = False, playRejected = False \<rparr>"

definition alloyOptions :: "bool \<Rightarrow> TTSOptions" where
  "alloyOptions on = \<lparr> enabled = on, opt_voice = ''alloy'', opt_rate = 1 \<rparr>"

text \<open>An idle hook with an open, empty cache, and one whose audio element is playing.\<close>

definition idleState :: tts_state where
  "idleState =
     \<lparr> isSpeaking = False, available = True, error = None, isLoading = False,
       audioRef = Some \<lparr> src = None, paused = True, currentTime = 0, playbackRate = 1 \<rparr>,
       synthesisRef = Some \<lparr> speaking = False, utterances = [] \<rparr>,
       cacheDBRef = Some \<lparr> audioCache = Map.empty, ttsStats = [] \<rparr>,
       effects = [] \<rparr>"

definition playingState :: tts_state where
  "playingState =
     \<lparr> isSpeaking = True, available = True, error = None, isLoading = False,
       audioRef = Some \<lparr> src = Some [82, 73, 70, 70], paused = False, currentTime = 3 / 2,
                         playbackRate = 1 \<rparr>,
       synthesisRef = Some \<lparr> speaking = False, utterances = [] \<rparr>,
       cacheDBRef = Some \<lparr> audioCache = Map.empty, ttsStats = [] \<rparr>,
       effects = [] \<rparr>"

text \<open>A host whose \<open>play()\<close> is rejected at once.\<close>

definition rejectingHost :: host where
  "rejectingHost = (hostAt noContextHost 0)\<lparr> playRejected := True \<rparr>"

text \<open>Three runs. In the first, \<open>speak\<close> is called a second time while the first call
  waits for the cache, and the two calls take turns. In the second, the second call
  comes as early, the first call then runs to its end, where its \<open>play()\<close> is rejected
  at once, and the second call follows. In the third, the first call runs to its end,
  \<open>speak\<close> is called again while the promise of the first \<open>play()\<close> is pending, and
  that promise is rejected.\<close>

definition overlappingCalls :: "event list" where
  "overlappingCalls =
     [SpeakCalled (alloyOptions True) ''Hello'',
      SpeakCalled (alloyOptions True) ''Hello'',
      AwaitDone 0 (hostAt noContextHost 0),
      AwaitDone 1 (hostAt noContextHost 0),
      AwaitDone 0 (hostAt noContextHost 0),
      AwaitDone 1 (hostAt noContextHost 0),
      AwaitDone 0 (hostAt noContextHost 0),
      AwaitDone 0 (hostAt noContextHost 0)]"

definition rejectedFirst :: "event list" where
  "rejectedFirst =
     [SpeakCalled (alloyOptions True) ''Hello'',
      SpeakCalled (alloyOptions True) ''Hello'',
      AwaitDone 0 (hostAt noContextHost 0),
      AwaitDone 0 (hostAt noContextHost 0),
      AwaitDone 0 rejectingHost,
      AwaitDone 0 (hostAt noContextHost 0),
      AwaitDone 0 (hostAt noContextHost 0),
      AwaitDone 0 (hostAt noContextHost 0)]"

definition abortedFirst :: "event list" where
  "abortedFirst =
     [SpeakCalled (alloyOptions True) ''Hello'',
      AwaitDone 0 (hostAt noContextHost 0),
      AwaitDone 0 (hostAt noContextHost 0),
      AwaitDone 0 (hostAt noContextHost 0),
      SpeakCalled (alloyOptions True) ''Hello'',
      PlayFailedLater 1,
      AwaitDone 0 (hostAt noContextHost 0)]"

subsection \<open>Closed forms of the written bytes\<close>

text \<open>The two bytes of a little-endian 16-bit write and the four bytes of a 32-bit one.\<close>

definition le16 :: "int \<Rightarrow> byte list" where
  "le16 v = [word_of_int v, word_of_int (v div 256)]"

definition le32 :: "int \<Rightarrow> byte list" where
  "le32 v = [word_of_int v, word_of_int (v div 256), word_of_int (v div 65536),
             word_of_int (v div 16777216)]"

text \<open>The bytes that \<open>writeString\<close> stores: the code units, modulo 256.\<close>

definition charCodes :: "string \<Rightarrow> byte list" where
  "charCodes s = map (\<lambda>c. word_of_int (of_char c)) s"

text \<open>A view whose first bytes \<open>pre\<close> are written and whose last \<open>m\<close> bytes are still zero: the shape of the buffer while the encoder fills it from left to right.\<close>

definition zview :: "byte list \<Rightarrow> nat \<Rightarrow> byte list" where
  "zview pre m = pre @ replicate m 0"

text \<open>The integer that the encoder stores for a sample (lines 280-281).\<close>

definition sampleInt16 :: "jsnum \<Rightarrow> int" where
  "sampleInt16 x = ToInteger (times_const (Math_max (Finite (- 1)) (Math_min (Finite 1) x)) 32767)"

text \<open>The bytes of frame \<open>i\<close>: one 16-bit sample per channel, in channel order.\<close>

definition frameBytes :: "jsnum list list \<Rightarrow> nat \<Rightarrow> byte list" where
  "frameBytes channels i = concat (map (\<lambda>ch. le16 (sampleInt16 (sampleAt ch i))) channels)"

text \<open>The bytes of the frames \<open>i\<close> up to \<open>len\<close>.\<close>

definition pcmBytes :: "jsnum list list \<Rightarrow> nat \<Rightarrow> nat \<Rightarrow> byte list" where
  "pcmBytes channels i len = concat (map (frameBytes channels) [i..<len])"

text \<open>The 44 bytes of the RIFF/WAVE header as the writes of lines 244-268 lay them out: \<open>RIFF\<close>, the file length less 8, \<open>WAVE\<close>, \<open>fmt \<close>, the chunk length 16, the format tag 1 (PCM), the channel count, the sample rate, the byte rate, the block align, 16 bits per sample, \<open>data\<close> and the data length.\<close>

definition wavHeader :: "nat \<Rightarrow> nat \<Rightarrow> nat \<Rightarrow> byte list" where
  "wavHeader numOfChan rate len =
     charCodes ''RIFF'' @ le32 (int (36 + len)) @ charCodes ''WAVE'' @ charCodes ''fmt ''
     @ le32 16 @ le16 1 @ le16 (int numOfChan) @ le32 (int rate)
     @ le32 (int (rate * numOfChan * 2)) @ le16 (int (numOfChan * 2)) @ le16 16
     @ charCodes ''data'' @ le32 (int len)"

text \<open>Clipping to the interval from -1 to 1: \<open>Math.max(-1, Math.min(1, q))\<close> on a finite sample.\<close>

definition clip :: "rat \<Rightarrow> rat" where
  "clip q = max (- 1) (min 1 q)"

text \<open>The number that the fallback tone stores for sample \<open>i\<close> (lines 221-229), and
  the bytes of the samples from \<open>i\<close> on.\<close>

definition beepValue :: "fpu \<Rightarrow> nat \<Rightarrow> nat \<Rightarrow> nat \<Rightarrow> jsnum" where
  "beepValue F srate numSamples i =
     Finite (rnd F (rnd F (Math_sin F (rnd F (rnd F (rnd F (of_nat (i * 440) * Math_PI F) * 2)
                                              / of_nat srate))
                           * beepAmplitude F srate numSamples i) * 32767))"

definition beepBytes :: "fpu \<Rightarrow> nat \<Rightarrow> nat \<Rightarrow> nat \<Rightarrow> byte list" where
  "beepBytes F srate numSamples i =
     concat (map (\<lambda>j. le16 (ToInteger (beepValue F srate numSamples j))) [i..<numSamples])"

section \<open>Properties\<close>

subsection \<open>Voice profile lookup\<close>

text \<open>
  C7 (as stated, refuted). The claim gives the default profile to every identifier that is
  not one of the six built-in ones. The lookup lower-cases the identifier first, so
  \<open>ALLOY\<close>, which is not one of the six identifiers, gets the profile of \<open>alloy\<close>
  (base frequency 175 Hz), not the default one (160 Hz).
\<close>

theorem C7_uppercase_id_counterexample:
  "''ALLOY'' \<notin> set builtinVoiceIds
   \<and> baseFrequency (getVoiceCharacteristics ''ALLOY'') = 175
   \<and> getVoiceCharacteristics ''ALLOY'' \<noteq> defaultCharacteristics"
proof -
  have "toLowerCase ''ALLOY'' = ''alloy''"
    by code_simp
  then show ?thesis
    by (simp add: builtinVoiceIds_def getVoiceCharacteristics_def defaultCharacteristics_def)
qed

text \<open>
  C7 (amended). For every identifier whose lower-cased form is not one of the six built-in
  identifiers, the lookup returns the default profile: base frequency 160 Hz, formants at
  500/1500/2500 Hz with gains 1.0/0.5/0.25, emphasis 1.2, breathiness 0.1, syllable rate
  4.0. The lookup is a total function: it has no error result.
\<close>

theorem C7_unknown_voice_default:
  assumes "toLowerCase voiceId \<notin> set builtinVoiceIds"
  shows "getVoiceCharacteristics voiceId =
           \<lparr> baseFrequency = 160,
             formants = [\<lparr> frequency = 500, gain = 1, type = ''sine'' \<rparr>,
                         \<lparr> frequency = 1500, gain = 1/2, type = ''sine'' \<rparr>,
                         \<lparr> frequency = 2500, gain = 1/4, type = ''sine'' \<rparr>],
             emphasis = 12/10, breathiness = 1/10, syllableRate = 4 \<rparr>"
  using assms
  by (simp add: builtinVoiceIds_def getVoiceCharacteristics_def defaultCharacteristics_def
      Let_def)

theorem C7_unknown_voice_default_witness:
  "toLowerCase ''Robot'' \<notin> set builtinVoiceIds
   \<and> baseFrequency (getVoiceCharacteristics ''Robot'') = 160
   \<and> map frequency (formants (getVoiceCharacteristics ''Robot'')) = [500, 1500, 2500]"
proof -
  have "toLowerCase ''Robot'' = ''robot''"
    by code_simp
  then have h: "toLowerCase ''Robot'' \<notin> set builtinVoiceIds"
    by (simp add: builtinVoiceIds_def)
  show ?thesis
    using h C7_unknown_voice_default [OF h] by simp
qed

subsection \<open>The WAV encoder\<close>

lemma length_le16 [simp]: "length (le16 v) = 2" by (simp add: le16_def)
lemma length_le32 [simp]: "length (le32 v) = 4" by (simp add: le32_def)
lemma length_charCodes [simp]: "length (charCodes s) = length s" by (simp add: charCodes_def)

lemma setUint8_zview:
  "off = length pre \<Longrightarrow> 1 \<le> m \<Longrightarrow>
   setUint8 (zview pre m) off v = Some (zview (pre @ [word_of_int v]) (m - 1))"
  by (cases m) (simp_all add: setUint8_def zview_def list_update_append)

lemma setUint16_zview:
  "off = length pre \<Longrightarrow> 2 \<le> m \<Longrightarrow>
   setUint16 (zview pre m) off v = Some (zview (pre @ le16 v) (m - 2))"
proof -
  assume a: "off = length pre" "2 \<le> m"
  then obtain k where m: "m = Suc (Suc k)"
    by (metis add_2_eq_Suc le_Suc_ex)
  show ?thesis
    using a by (simp add: m setUint16_def zview_def list_update_append le16_def)
qed

lemma setUint32_zview:
  "off = length pre \<Longrightarrow> 4 \<le> m \<Longrightarrow>
   setUint32 (zview pre m) off v = Some (zview (pre @ le32 v) (m - 4))"
proof -
  assume a: "off = length pre" "4 \<le> m"
  then obtain k where m: "m = Suc (Suc (Suc (Suc k)))"
    by (metis add_2_eq_Suc le_Suc_ex numeral_Bit0 add_Suc_right add_Suc)
  show ?thesis
    using a by (simp add: m setUint32_def zview_def list_update_append le32_def)
qed

lemma writeString_zview:
  "off = length pre \<Longrightarrow> length s \<le> m \<Longrightarrow>
   writeString (zview pre m) off s = Some (zview (pre @ charCodes s) (m - length s))"
proof (induction s arbitrary: pre m off)
  case Nil
  then show ?case by (simp add: charCodes_def)
next
  case (Cons c cs)
  have "writeString (zview (pre @ [word_of_int (of_char c)]) (m - 1)) (off + 1) cs
        = Some (zview ((pre @ [word_of_int (of_char c)]) @ charCodes cs) (m - 1 - length cs))"
    using Cons.prems by (intro Cons.IH) auto
  then show ?case
    using Cons.prems by (simp add: setUint8_zview charCodes_def)
qed

lemma length_frameBytes [simp]: "length (frameBytes channels i) = 2 * length channels"
  by (induction channels) (simp_all add: frameBytes_def)

lemma length_pcmBytes [simp]:
  "length (pcmBytes channels i len) = 2 * length channels * (len - i)"
  by (simp add: pcmBytes_def length_concat comp_def sum_list_triv)

lemma length_wavHeader [simp]: "length (wavHeader n r l) = 44"
  by (simp add: wavHeader_def)

lemma setInt16_zview:
  "off = length pre \<Longrightarrow> 2 \<le> m \<Longrightarrow>
   setInt16 (zview pre m) off x = Some (zview (pre @ le16 (ToInteger x)) (m - 2))"
  by (simp add: setInt16_def setUint16_zview)

lemma writeFrame_zview:
  "off = length pre \<Longrightarrow> 2 * length channels \<le> m \<Longrightarrow>
   writeFrame channels i (zview pre m) off
     = Some (zview (pre @ frameBytes channels i) (m - 2 * length channels),
             off + 2 * length channels)"
proof (induction channels arbitrary: pre m off)
  case Nil
  then show ?case by (simp add: frameBytes_def)
next
  case (Cons ch chs)
  let ?b = "le16 (sampleInt16 (sampleAt ch i))"
  have "writeFrame chs i (zview (pre @ ?b) (m - 2)) (off + 2)
        = Some (zview ((pre @ ?b) @ frameBytes chs i) (m - 2 - 2 * length chs),
                off + 2 + 2 * length chs)"
    using Cons.prems by (intro Cons.IH) auto
  then show ?case
    using Cons.prems
    by (simp add: setInt16_zview sampleInt16_def frameBytes_def)
qed

lemma pcmBytes_unfold:
  "i < len \<Longrightarrow> pcmBytes channels i len = frameBytes channels i @ pcmBytes channels (Suc i) len"
  by (simp add: pcmBytes_def upt_conv_Cons)

lemma pcmBytes_done: "\<not> i < len \<Longrightarrow> pcmBytes channels i len = []"
  by (simp add: pcmBytes_def)

lemma writeFrames_zview:
  "off = length pre \<Longrightarrow> 2 * length channels * (len - i) \<le> m \<Longrightarrow>
   writeFrames channels len i (zview pre m) off
     = Some (zview (pre @ pcmBytes channels i len) (m - 2 * length channels * (len - i)))"
proof (induction channels len i "zview pre m" off arbitrary: pre m rule: writeFrames.induct)
  case (1 channels len i off)
  show ?case
  proof (cases "i < len")
    case False
    then show ?thesis
      by (subst writeFrames.simps) (simp add: pcmBytes_done)
  next
    case True
    let ?pre = "pre @ frameBytes channels i"
    let ?m = "m - 2 * length channels"
    obtain k where k: "len - i = Suc k" "len - (i + 1) = k"
      using True by (cases "len - i") auto
    have le: "2 * length channels \<le> m"
      using "1.prems"(2) by (simp add: k)
    have wf: "writeFrame channels i (zview pre m) off
              = Some (zview ?pre ?m, off + 2 * length channels)"
      using "1.prems"(1) le by (rule writeFrame_zview)
    have split: "2 * length channels * (len - i)
                 = 2 * length channels + 2 * length channels * (len - (i + 1))"
      using k by simp
    have rest: "writeFrames channels len (i + 1) (zview ?pre ?m) (off + 2 * length channels)
                = Some (zview (?pre @ pcmBytes channels (i + 1) len)
                              (?m - 2 * length channels * (len - (i + 1))))"
    proof (rule "1.hyps" [OF True wf refl])
      show "off + 2 * length channels = length ?pre"
        using "1.prems"(1) by simp
      show "2 * length channels * (len - (i + 1)) \<le> ?m"
        using "1.prems"(2) k by simp
    qed
    have "writeFrames channels len i (zview pre m) off
          = writeFrames channels len (i + 1) (zview ?pre ?m) (off + 2 * length channels)"
      using True wf by (subst writeFrames.simps) simp
    also note rest
    finally show ?thesis
      using True split by (simp add: pcmBytes_unfold)
  qed
qed

lemma collectChannels_drop:
  "length (channelData B) = numberOfChannels B \<Longrightarrow> i \<le> numberOfChannels B \<Longrightarrow>
   collectChannels B (numberOfChannels B) i acc = Some (acc @ drop i (channelData B))"
proof (induction B "numberOfChannels B" i acc rule: collectChannels.induct)
  case (1 B i acc)
  show ?case
  proof (cases "i < numberOfChannels B")
    case False
    with "1.prems" show ?thesis by (subst collectChannels.simps) simp
  next
    case True
    have g: "getChannelData B i = Some (channelData B ! i)"
      using True "1.prems" by (simp add: getChannelData_def)
    have "collectChannels B (numberOfChannels B) (i + 1) (acc @ [channelData B ! i])
          = Some ((acc @ [channelData B ! i]) @ drop (i + 1) (channelData B))"
      using True "1.prems" by (intro "1.hyps" [OF True g]) auto
    moreover have "drop i (channelData B) = channelData B ! i # drop (i + 1) (channelData B)"
      using True "1.prems" by (simp add: Cons_nth_drop_Suc)
    ultimately show ?thesis
      using True g by (subst collectChannels.simps) simp
  qed
qed

lemma exportToWavArrayBuffer_closed_form:
  assumes "length (channelData B) = numberOfChannels B"
  shows "exportToWavArrayBuffer B
         = Some (wavHeader (numberOfChannels B) (sampleRate B)
                   (length_frames B * numberOfChannels B * 2)
                 @ pcmBytes (channelData B) 0 (length_frames B))"
proof -
  let ?n = "numberOfChannels B"
  let ?len = "length_frames B * ?n * 2"
  have z0: "replicate (44 + ?len) (0 :: byte) = zview [] (44 + ?len)"
    by (simp add: zview_def)
  have cc: "collectChannels B ?n 0 [] = Some (channelData B)"
    using collectChannels_drop [OF assms, of 0 "[]"] by simp
  have fin: "zview xs 0 = xs" for xs
    by (simp add: zview_def)
  show ?thesis
    unfolding exportToWavArrayBuffer_def Let_def z0
    by (simp add: writeString_zview setUint32_zview setUint16_zview cc writeFrames_zview
        assms fin wavHeader_def algebra_simps del: writeString.simps)
qed

lemma uint_le16_bytes:
  "uint (word_of_int k :: byte) + 256 * uint (word_of_int (k div 256) :: byte) = k mod 65536"
proof -
  have "uint (word_of_int k :: byte) = k mod 256"
    by (simp add: uint_word_of_int)
  moreover have "uint (word_of_int (k div 256) :: byte) = (k div 256) mod 256"
    by (simp add: uint_word_of_int)
  moreover have "k mod 65536 = k mod 256 + 256 * ((k div 256) mod 256)"
    using zmod_zmult2_eq [of 256 k 256] by simp
  ultimately show ?thesis by simp
qed

lemma getInt16_le16:
  assumes "- 32768 \<le> k" "k \<le> 32767"
  shows "getInt16 (pre @ le16 k @ rest) (length pre) = k"
proof -
  have nth0: "(pre @ le16 k @ rest) ! length pre = word_of_int k"
    by (simp add: le16_def nth_append)
  have nth1: "(pre @ le16 k @ rest) ! Suc (length pre) = word_of_int (k div 256)"
    by (simp add: le16_def nth_append)
  have u: "uint (word_of_int k :: byte) + 256 * uint (word_of_int (k div 256) :: byte)
           = k mod 65536"
    by (rule uint_le16_bytes)
  show ?thesis
  proof (cases "0 \<le> k")
    case True
    then have "k mod 65536 = k" using assms by simp
    then show ?thesis
      using assms by (simp add: getInt16_def nth0 nth1 u Let_def)
  next
    case False
    then have "(k + 65536) mod 65536 = k + 65536"
      using assms by (intro mod_pos_pos_trivial) simp_all
    then have "k mod 65536 = k + 65536"
      by simp
    then show ?thesis
      using assms False by (simp add: getInt16_def nth0 nth1 u Let_def)
  qed
qed

lemma sampleInt16_Finite:
  "sampleInt16 (Finite q) = (if 0 \<le> clip q then \<lfloor>clip q * 32767\<rfloor> else \<lceil>clip q * 32767\<rceil>)"
  by (simp add: sampleInt16_def clip_def zero_le_mult_iff)

lemma sampleInt16_error:
  "\<bar>of_int (sampleInt16 (Finite q)) - clip q * 32767\<bar> < (1 :: rat)"
  unfolding sampleInt16_Finite by (auto simp: abs_less_iff; linarith)

lemma clip_range: "- 1 \<le> clip q \<and> clip q \<le> 1"
  by (simp add: clip_def)

lemma sampleInt16_range: "- 32767 \<le> sampleInt16 x \<and> sampleInt16 x \<le> 32767"
proof (cases x)
  case (Finite q)
  have lo: "- 32767 \<le> clip q * 32767" and hi: "clip q * 32767 \<le> 32767"
    using clip_range [of q] by simp_all
  show ?thesis
  proof (cases "0 \<le> clip q")
    case True
    then have "sampleInt16 x = \<lfloor>clip q * 32767\<rfloor>"
      by (simp add: Finite sampleInt16_Finite)
    moreover have "\<lfloor>clip q * 32767\<rfloor> \<le> 32767"
      using hi by (simp add: floor_le_iff)
    moreover have "0 \<le> \<lfloor>clip q * 32767\<rfloor>"
      using True by simp
    ultimately show ?thesis by simp
  next
    case False
    then have "sampleInt16 x = \<lceil>clip q * 32767\<rceil>"
      by (simp add: Finite sampleInt16_Finite)
    moreover have "- 32767 \<le> \<lceil>clip q * 32767\<rceil>"
      using lo by (simp add: le_ceiling_iff)
    moreover have "\<lceil>clip q * 32767\<rceil> \<le> 0"
      using False by (simp add: ceiling_le_iff mult_le_0_iff)
    ultimately show ?thesis by simp
  qed
qed (simp_all add: sampleInt16_def)

lemma frameBytes_split:
  assumes "c < length channels"
  shows "frameBytes channels i
         = frameBytes (take c channels) i @ le16 (sampleInt16 (sampleAt (channels ! c) i))
           @ frameBytes (drop (Suc c) channels) i"
proof -
  have "channels = take c channels @ channels ! c # drop (Suc c) channels"
    using assms by (rule id_take_nth_drop)
  then have "frameBytes channels i
             = frameBytes (take c channels @ channels ! c # drop (Suc c) channels) i"
    by simp
  then show ?thesis
    by (simp add: frameBytes_def)
qed

lemma pcmBytes_split:
  assumes "i < len"
  shows "pcmBytes channels 0 len
         = pcmBytes channels 0 i @ frameBytes channels i @ pcmBytes channels (Suc i) len"
proof -
  have "[0..<len] = [0..<i] @ i # [Suc i..<len]"
    using assms by (metis less_imp_le_nat upt_add_eq_append upt_conv_Cons le_add_diff_inverse
        zero_le add_0)
  then show ?thesis
    by (simp add: pcmBytes_def)
qed

lemma pcmBytes_sample:
  assumes "i < len" "c < length channels"
  shows "\<exists>pre rest. pcmBytes channels 0 len
                       = pre @ le16 (sampleInt16 (sampleAt (channels ! c) i)) @ rest
                     \<and> length pre = 2 * (i * length channels + c)"
proof -
  let ?pre = "pcmBytes channels 0 i @ frameBytes (take c channels) i"
  let ?rest = "frameBytes (drop (Suc c) channels) i @ pcmBytes channels (Suc i) len"
  have "pcmBytes channels 0 len
        = ?pre @ le16 (sampleInt16 (sampleAt (channels ! c) i)) @ ?rest"
    using pcmBytes_split [OF assms(1)] frameBytes_split [OF assms(2)] by simp
  moreover have "length ?pre = 2 * (i * length channels + c)"
    using assms(2) by (simp add: min_def algebra_simps)
  ultimately show ?thesis by blast
qed

lemma decode_errors:
  fixes k :: int and s :: rat
  assumes "\<bar>of_int k - s * 32767\<bar> < 1" "- 1 \<le> s" "s \<le> 1"
  shows "\<bar>decode32767 k - s\<bar> < 1 / 32767" and "\<bar>decode32768 k - s\<bar> < 2 / 32768"
proof -
  define e where "e = of_int k - s * 32767"
  have e: "\<bar>e\<bar> < 1"
    using assms(1) by (simp add: e_def)
  have eq1: "decode32767 k - s = e / 32767"
    by (simp add: decode32767_def e_def field_simps)
  have "\<bar>e / 32767\<bar> = \<bar>e\<bar> / 32767"
    by (simp only: abs_divide abs_numeral)
  also have "\<dots> < 1 / 32767"
    using e by (rule divide_strict_right_mono) simp
  finally show "\<bar>decode32767 k - s\<bar> < 1 / 32767"
    unfolding eq1 .
  have eq2: "decode32768 k - s = (e - s) / 32768"
    by (simp add: decode32768_def e_def field_simps)
  have es: "\<bar>e - s\<bar> < 2"
    using e assms(2,3) by (simp add: abs_less_iff)
  have "\<bar>(e - s) / 32768\<bar> = \<bar>e - s\<bar> / 32768"
    by (simp only: abs_divide abs_numeral)
  also have "\<dots> < 2 / 32768"
    using es by (rule divide_strict_right_mono) simp
  finally show "\<bar>decode32768 k - s\<bar> < 2 / 32768"
    unfolding eq2 .
qed

text \<open>
  C1 (amended). For every valid AudioBuffer the encoder succeeds and returns the 44-byte
  RIFF/WAVE PCM header followed by the interleaved little-endian 16-bit samples: the
  sample of frame \<open>i\<close> and channel \<open>c\<close> is at byte \<open>44 + 2 * (i * channels + c)\<close>. The
  stored integer is the clipped input times 32767, truncated towards zero, so it is
  within one least-significant bit of the scaled input. Decoding by 32767 reproduces the
  clipped input within 1/32767, decoding by 32768 within 2/32768. (The encoder is a HOL
  function of the buffer, hence deterministic and without effects.)
\<close>

theorem C1_wav_encoding:
  assumes "valid_AudioBuffer B"
  shows "\<exists>out. exportToWavArrayBuffer B = Some out
           \<and> length out = 44 + 2 * (length_frames B * numberOfChannels B)
           \<and> take 44 out = wavHeader (numberOfChannels B) (sampleRate B)
                              (length_frames B * numberOfChannels B * 2)
           \<and> (\<forall>i c q. i < length_frames B \<and> c < numberOfChannels B
                  \<and> channelData B ! c ! i = Finite q \<longrightarrow>
                (let k = getInt16 out (44 + 2 * (i * numberOfChannels B + c))
                 in k = (if 0 \<le> clip q then \<lfloor>clip q * 32767\<rfloor> else \<lceil>clip q * 32767\<rceil>)
                    \<and> \<bar>of_int k - clip q * 32767\<bar> < 1
                    \<and> \<bar>decode32767 k - clip q\<bar> < 1 / 32767
                    \<and> \<bar>decode32768 k - clip q\<bar> < 2 / 32768))"
proof -
  let ?n = "numberOfChannels B"
  let ?hdr = "wavHeader ?n (sampleRate B) (length_frames B * ?n * 2)"
  let ?out = "?hdr @ pcmBytes (channelData B) 0 (length_frames B)"
  have n: "length (channelData B) = ?n"
    using assms by (simp add: valid_AudioBuffer_def)
  have chlen: "length (channelData B ! c) = length_frames B" if "c < ?n" for c
    using assms that n by (simp add: valid_AudioBuffer_def list_all_length)
  have ex: "exportToWavArrayBuffer B = Some ?out"
    using n by (rule exportToWavArrayBuffer_closed_form)
  have len: "length ?out = 44 + 2 * (length_frames B * ?n)"
    by (simp add: n algebra_simps)
  have hd: "take 44 ?out = ?hdr"
    by simp
  have smp: "let k = getInt16 ?out (44 + 2 * (i * ?n + c))
             in k = (if 0 \<le> clip q then \<lfloor>clip q * 32767\<rfloor> else \<lceil>clip q * 32767\<rceil>)
                \<and> \<bar>of_int k - clip q * 32767\<bar> < 1
                \<and> \<bar>decode32767 k - clip q\<bar> < 1 / 32767
                \<and> \<bar>decode32768 k - clip q\<bar> < 2 / 32768"
    if "i < length_frames B" "c < ?n" "channelData B ! c ! i = Finite q" for i c q
  proof -
    have sa: "sampleAt (channelData B ! c) i = Finite q"
      using that chlen by (simp add: sampleAt_def)
    have "\<exists>pre rest. pcmBytes (channelData B) 0 (length_frames B)
                         = pre @ le16 (sampleInt16 (sampleAt (channelData B ! c) i)) @ rest
                       \<and> length pre = 2 * (i * length (channelData B) + c)"
      using that(1,2) n by (intro pcmBytes_sample) simp_all
    then obtain pre rest where pr:
      "pcmBytes (channelData B) 0 (length_frames B) = pre @ le16 (sampleInt16 (Finite q)) @ rest"
      "length pre = 2 * (i * ?n + c)"
      unfolding sa n by blast
    have "getInt16 ((?hdr @ pre) @ le16 (sampleInt16 (Finite q)) @ rest) (length (?hdr @ pre))
          = sampleInt16 (Finite q)"
      using sampleInt16_range [of "Finite q"] by (intro getInt16_le16) simp_all
    then have k: "getInt16 ?out (44 + 2 * (i * ?n + c)) = sampleInt16 (Finite q)"
      by (simp add: pr)
    show ?thesis
      unfolding k Let_def
      using sampleInt16_Finite [of q] sampleInt16_error [of q]
        decode_errors [OF sampleInt16_error [of q]] clip_range [of q]
      by simp
  qed
  show ?thesis
    using ex len hd smp by blast
qed

text \<open>
  C1 (as stated, refuted). The claim bounds the error of every decoded sample by 1/32768.
  The encoder stores the sample times 32767, truncated towards zero. For the binary32
  sample 8388609 / 274877906944 (that is 1/32768 + 1/2^38) it stores 0, the bytes of a
  silent sample, and the decoded value 0 is further than 1/32768 from the input, whether
  the reader divides by 32768 or by 32767.
\<close>

theorem C1_tolerance_counterexample:
  "valid_AudioBuffer \<lparr> numberOfChannels = 1, length_frames = 1, sampleRate = 44100,
        channelData = [[Finite (8388609 / 274877906944)]] \<rparr>
   \<and> exportToWavArrayBuffer \<lparr> numberOfChannels = 1, length_frames = 1, sampleRate = 44100,
        channelData = [[Finite (8388609 / 274877906944)]] \<rparr>
       = Some (wavHeader 1 44100 2 @ [0, 0])
   \<and> getInt16 (wavHeader 1 44100 2 @ [0, 0]) 44 = 0
   \<and> clip (8388609 / 274877906944) = 8388609 / 274877906944
   \<and> \<not> \<bar>decode32768 0 - 8388609 / 274877906944\<bar> \<le> 1 / 32768
   \<and> \<not> \<bar>decode32767 0 - 8388609 / 274877906944\<bar> \<le> 1 / 32768"
proof -
  let ?B = "\<lparr> numberOfChannels = 1, length_frames = 1, sampleRate = 44100,
        channelData = [[Finite (8388609 / 274877906944)]] \<rparr>"
  have v: "valid_AudioBuffer ?B"
    by (simp add: valid_AudioBuffer_def)
  have fl: "\<lfloor>8388609 * 32767 / (274877906944 :: rat)\<rfloor> = 0"
    by (simp add: floor_eq_iff)
  have k: "sampleInt16 (Finite (8388609 / 274877906944)) = 0"
    using fl by (simp add: sampleInt16_Finite clip_def)
  have p: "pcmBytes [[Finite (8388609 / 274877906944)]] 0 1 = [0, 0]"
    by (simp add: pcmBytes_def frameBytes_def sampleAt_def k le16_def)
  have e: "exportToWavArrayBuffer ?B = Some (wavHeader 1 44100 2 @ [0, 0])"
    using exportToWavArrayBuffer_closed_form [of ?B] p by simp
  have g: "getInt16 (wavHeader 1 44100 2 @ [0, 0]) 44 = 0"
    using getInt16_le16 [of 0 "wavHeader 1 44100 2" "[]"] by (simp add: le16_def)
  show ?thesis
    using v e g by (simp add: clip_def decode32768_def decode32767_def)
qed

theorem C1_wav_encoding_witness:
  "valid_AudioBuffer \<lparr> numberOfChannels = 1, length_frames = 2, sampleRate = 48000,
        channelData = [[Finite (1 / 2), Finite (- 3)]] \<rparr>
   \<and> (\<exists>out. exportToWavArrayBuffer \<lparr> numberOfChannels = 1, length_frames = 2,
                  sampleRate = 48000, channelData = [[Finite (1 / 2), Finite (- 3)]] \<rparr> = Some out
           \<and> length out = 48
           \<and> take 4 out = [82, 73, 70, 70]
           \<and> getInt16 out 44 = 16383
           \<and> getInt16 out 46 = - 32767)"
proof -
  let ?B = "\<lparr> numberOfChannels = 1, length_frames = 2, sampleRate = 48000,
        channelData = [[Finite (1 / 2), Finite (- 3)]] \<rparr>"
  have v: "valid_AudioBuffer ?B"
    by (simp add: valid_AudioBuffer_def)
  from C1_wav_encoding [OF v] obtain out where
    o: "exportToWavArrayBuffer ?B = Some out" "length out = 48"
       "take 44 out = wavHeader 1 48000 4"
    and s: "\<And>i c q. i < 2 \<Longrightarrow> c < 1 \<Longrightarrow> [[Finite (1 / 2), Finite (- 3)]] ! c ! i = Finite q \<Longrightarrow>
              getInt16 out (44 + 2 * (i + c))
                = (if 0 \<le> clip q then \<lfloor>clip q * 32767\<rfloor> else \<lceil>clip q * 32767\<rceil>)"
    by (auto simp: Let_def)
  have "take 4 (take 44 out) = [82, 73, 70, 70]"
    unfolding o(3) by (simp add: wavHeader_def charCodes_def)
  then have h: "take 4 out = [82, 73, 70, 70]"
    by simp
  have "\<lfloor>32767 / (2 :: rat)\<rfloor> = 16383"
    by (simp add: floor_eq_iff)
  then have a: "getInt16 out 44 = 16383"
    using s [of 0 0 "1 / 2"] by (simp add: clip_def)
  have b: "getInt16 out 46 = - 32767"
    using s [of 1 0 "- 3"] by (simp add: clip_def)
  show ?thesis
    using v o h a b by blast
qed

subsection \<open>The fallback tone\<close>

lemma half_samples: "nat \<lfloor>of_nat srate * (1 / 2 :: rat)\<rfloor> = srate div 2"
proof -
  have "of_nat srate * (1 / 2 :: rat) = of_nat srate / of_nat 2"
    by simp
  then have "\<lfloor>of_nat srate * (1 / 2 :: rat)\<rfloor> = int (srate div 2)"
    by (simp only: floor_divide_of_nat_eq)
  then show ?thesis by simp
qed

lemma length_beepBytes [simp]: "length (beepBytes F srate n i) = 2 * (n - i)"
  by (simp add: beepBytes_def length_concat comp_def sum_list_triv)

lemma beepBytes_unfold:
  "i < n \<Longrightarrow> beepBytes F srate n i
             = le16 (ToInteger (beepValue F srate n i)) @ beepBytes F srate n (Suc i)"
  by (simp add: beepBytes_def upt_conv_Cons)

lemma beepSamples_zview:
  "length pre = 44 + 2 * i \<Longrightarrow> 2 * (n - i) \<le> m \<Longrightarrow>
   beepSamples F srate n i (zview pre m)
     = Some (zview (pre @ beepBytes F srate n i) (m - 2 * (n - i)))"
proof (induction F srate n i "zview pre m" arbitrary: pre m rule: beepSamples.induct)
  case (1 F srate n i)
  show ?case
  proof (cases "i < n")
    case False
    then show ?thesis
      by (subst beepSamples.simps) (simp add: beepBytes_def)
  next
    case True
    obtain k where k: "n - i = Suc k" "n - (i + 1) = k"
      using True by (cases "n - i") auto
    let ?x = "beepValue F srate n i"
    have w: "setInt16 (zview pre m) (44 + i * 2) ?x
             = Some (zview (pre @ le16 (ToInteger ?x)) (m - 2))"
      using "1.prems" k by (intro setInt16_zview) simp_all
    have len: "length (pre @ le16 (ToInteger ?x)) = 44 + 2 * (i + 1)"
      using "1.prems"(1) by simp
    have le: "2 * (n - (i + 1)) \<le> m - 2"
      using "1.prems"(2) k by simp
    note r = "1.hyps" [OF True refl refl w [unfolded beepValue_def] len [unfolded beepValue_def] le,
        folded beepValue_def]
    have "beepSamples F srate n i (zview pre m)
          = beepSamples F srate n (i + 1) (zview (pre @ le16 (ToInteger ?x)) (m - 2))"
      using True w by (subst beepSamples.simps) (simp add: beepValue_def Let_def)
    then show ?thesis
      using r k True by (simp add: beepBytes_unfold)
  qed
qed

lemma createFallbackBeep_closed_form:
  "createFallbackBeep F srate
   = Some (wavHeader 1 srate (2 * (srate div 2)) @ beepBytes F srate (srate div 2) 0)"
proof -
  let ?n = "srate div 2"
  have z0: "replicate (44 + ?n * 2) (0 :: byte) = zview [] (44 + ?n * 2)"
    by (simp add: zview_def)
  have fin: "zview xs 0 = xs" for xs
    by (simp add: zview_def)
  show ?thesis
    unfolding createFallbackBeep_def Let_def half_samples z0
    by (simp add: writeString_zview setUint32_zview setUint16_zview beepSamples_zview
        fin wavHeader_def algebra_simps del: writeString.simps)
qed

lemma createFallbackBeep_length:
  "\<exists>beep. createFallbackBeep F srate = Some beep \<and> length beep = 44 + 2 * (srate div 2)
          \<and> take 44 beep = wavHeader 1 srate (2 * (srate div 2))"
  by (simp add: createFallbackBeep_closed_form)

subsection \<open>The synthesizer\<close>

lemma renderSpeech_None_iff:
  "renderSpeech H text voice rate = None \<longleftrightarrow>
     (case newAudioContext H of
        None \<Rightarrow> True
      | Some srate \<Rightarrow>
          \<not> newOfflineAudioContext H (safeFrameCount (fp H) text rate srate) srate
          \<or> \<not> scheduleGraph H (getVoiceCharacteristics voice)
                (calculateDuration (fp H) text rate) text)"
  by (simp add: renderSpeech_def Let_def split: option.splits)

lemma synthesizeTextToAudio_cases:
  "synthesizeTextToAudio H text voice rate =
     (case renderSpeech H text voice rate of
        None \<Rightarrow> Some (replicate 44 0)
      | Some (srate, None) \<Rightarrow> createFallbackBeep (fp H) srate
      | Some (srate, Some B) \<Rightarrow>
          (case exportToWavArrayBuffer B of
             Some bytes \<Rightarrow> Some bytes
           | None \<Rightarrow> createFallbackBeep (fp H) srate))"
  using createFallbackBeep_closed_form
  by (simp add: synthesizeTextToAudio_def split: option.splits prod.splits)

lemma synthesizeTextToAudio_total:
  "\<exists>bytes. synthesizeTextToAudio H text voice rate = Some bytes"
  by (simp add: synthesizeTextToAudio_def split: option.splits)

text \<open>
  C9. \<open>synthesizeTextToAudio\<close> always returns a buffer; it never throws or rejects.
  When the \<open>AudioContext\<close> cannot be constructed, or another statement before the
  rendering throws, the buffer is 44 zero bytes. When the rendering rejects, or the
  export of the rendered buffer throws, it is the fallback tone: the header of a mono
  PCM file at the context's sample rate and \<open>srate div 2\<close> samples, half a second.
  Otherwise it is the exported buffer.
\<close>

theorem C9_synthesize_total:
  "\<exists>bytes. synthesizeTextToAudio H text voice rate = Some bytes
     \<and> (newAudioContext H = None \<longrightarrow> bytes = replicate 44 0)
     \<and> (renderSpeech H text voice rate = None \<longrightarrow> bytes = replicate 44 0)
     \<and> (\<forall>srate. renderSpeech H text voice rate = Some (srate, None) \<longrightarrow>
            createFallbackBeep (fp H) srate = Some bytes
            \<and> bytes = wavHeader 1 srate (2 * (srate div 2)) @ beepBytes (fp H) srate (srate div 2) 0
            \<and> length bytes = 44 + 2 * (srate div 2))
     \<and> (\<forall>srate B. renderSpeech H text voice rate = Some (srate, Some B)
            \<and> exportToWavArrayBuffer B = None \<longrightarrow>
            createFallbackBeep (fp H) srate = Some bytes
            \<and> length bytes = 44 + 2 * (srate div 2))
     \<and> (\<forall>srate B wav. renderSpeech H text voice rate = Some (srate, Some B)
            \<and> exportToWavArrayBuffer B = Some wav \<longrightarrow> bytes = wav)"
proof -
  have ctx: "renderSpeech H text voice rate = None" if "newAudioContext H = None"
    using that by (simp add: renderSpeech_def)
  show ?thesis
  proof (cases "renderSpeech H text voice rate")
    case None
    then show ?thesis
      by (simp add: synthesizeTextToAudio_cases)
  next
    case (Some r)
    obtain srate rb where r: "r = (srate, rb)"
      by (cases r)
    have nctx: "newAudioContext H \<noteq> None"
      using ctx Some by auto
    show ?thesis
    proof (cases rb)
      case None
      then show ?thesis
        using Some r nctx
        by (auto simp: synthesizeTextToAudio_cases createFallbackBeep_closed_form)
    next
      case (Some B)
      show ?thesis
      proof (cases "exportToWavArrayBuffer B")
        case None
        then show ?thesis
          using \<open>renderSpeech H text voice rate = Some r\<close> r Some nctx
          by (auto simp: synthesizeTextToAudio_cases createFallbackBeep_closed_form)
      next
        case (Some wav)
        then show ?thesis
          using \<open>renderSpeech H text voice rate = Some r\<close> r \<open>rb = Some B\<close> nctx
          by (auto simp: synthesizeTextToAudio_cases)
      qed
    qed
  qed
qed

lemma renderSpeech_renderFailsHost:
  "renderSpeech renderFailsHost t v r = Some (8, None)"
  by (simp add: renderSpeech_def renderFailsHost_def Let_def)

lemma synthesize_renderFailsHost:
  "synthesizeTextToAudio renderFailsHost t v r
   = Some (wavHeader 1 8 8 @ beepBytes sampleFpu 8 4 0)"
  by (simp add: synthesizeTextToAudio_cases renderSpeech_renderFailsHost)
     (simp add: createFallbackBeep_closed_form renderFailsHost_def)

theorem C9_synthesize_total_witness:
  "synthesizeTextToAudio noContextHost ''Hi'' ''alloy'' 1 = Some (replicate 44 0)
   \<and> renderSpeech renderFailsHost ''Hi'' ''alloy'' 1 = Some (8, None)
   \<and> synthesizeTextToAudio renderFailsHost ''Hi'' ''alloy'' 1
       = createFallbackBeep sampleFpu 8
   \<and> map_option length (synthesizeTextToAudio renderFailsHost ''Hi'' ''alloy'' 1) = Some 52"
proof -
  have n: "newAudioContext noContextHost = None"
    by (simp add: noContextHost_def)
  have a: "synthesizeTextToAudio noContextHost ''Hi'' ''alloy'' 1 = Some (replicate 44 0)"
    using C9_synthesize_total [of noContextHost "''Hi''" "''alloy''" 1] n by auto
  have r: "renderSpeech renderFailsHost ''Hi'' ''alloy'' 1 = Some (8, None)"
    by (rule renderSpeech_renderFailsHost)
  have f: "fp renderFailsHost = sampleFpu"
    by (simp add: renderFailsHost_def)
  obtain bytes where bytes:
    "synthesizeTextToAudio renderFailsHost ''Hi'' ''alloy'' 1 = Some bytes"
    "createFallbackBeep sampleFpu 8 = Some bytes" "length bytes = 52"
    using C9_synthesize_total [of renderFailsHost "''Hi''" "''alloy''" 1] r f by auto
  show ?thesis
    using a r bytes by simp
qed

text \<open>
  C3. For every text and every rate above zero, a buffer that the synthesizer renders is
  mono, has the sample rate of the context and at most ten times that many frames; when
  the duration formula asks for ten seconds or more, it has exactly that many. The clamp
  raises no error: when the host constructs, schedules and renders, the buffer has the
  clamped length. Without rounding the duration is \<open>length text / 5 / 150 * 60 / rate\<close>.
\<close>

theorem C3_duration_clamp:
  assumes "0 < rate"
  shows "(\<forall>srate B. renderSpeech H text voice rate = Some (srate, Some B) \<longrightarrow>
            length_frames B \<le> 10 * srate \<and> sampleRate B = srate \<and> numberOfChannels B = 1
            \<and> (10 * int srate \<le> frameCount (fp H) text rate srate \<longrightarrow>
                 length_frames B = 10 * srate))
       \<and> (\<forall>srate channels.
            newAudioContext H = Some srate
            \<and> newOfflineAudioContext H (safeFrameCount (fp H) text rate srate) srate
            \<and> scheduleGraph H (getVoiceCharacteristics voice)
                 (calculateDuration (fp H) text rate) text
            \<and> startRendering H (safeFrameCount (fp H) text rate srate) srate
                 (getVoiceCharacteristics voice) (calculateDuration (fp H) text rate) text
                = Some channels \<longrightarrow>
            (\<exists>B. renderSpeech H text voice rate = Some (srate, Some B)
                 \<and> int (length_frames B)
                     = max 0 (min (frameCount (fp H) text rate srate) (10 * int srate))
                 \<and> channelData B = channels))
       \<and> (rnd (fp H) = (\<lambda>x. x) \<longrightarrow>
            calculateDuration (fp H) text rate = of_nat (length text) / 5 / 150 * 60 / rate)"
proof (intro conjI allI impI)
  fix srate B
  assume r: "renderSpeech H text voice rate = Some (srate, Some B)"
  then have B: "length_frames B = nat (safeFrameCount (fp H) text rate srate)"
    "sampleRate B = srate" "numberOfChannels B = 1"
    by (auto simp: renderSpeech_def Let_def split: option.splits if_splits)
  show "length_frames B \<le> 10 * srate"
    unfolding B by (simp add: safeFrameCount_def)
  show "sampleRate B = srate" "numberOfChannels B = 1"
    by (fact B)+
  assume "10 * int srate \<le> frameCount (fp H) text rate srate"
  then show "length_frames B = 10 * srate"
    unfolding B by (simp add: safeFrameCount_def min_def)
next
  fix srate channels
  assume "newAudioContext H = Some srate
            \<and> newOfflineAudioContext H (safeFrameCount (fp H) text rate srate) srate
            \<and> scheduleGraph H (getVoiceCharacteristics voice)
                 (calculateDuration (fp H) text rate) text
            \<and> startRendering H (safeFrameCount (fp H) text rate srate) srate
                 (getVoiceCharacteristics voice) (calculateDuration (fp H) text rate) text
                = Some channels"
  then show "\<exists>B. renderSpeech H text voice rate = Some (srate, Some B)
                 \<and> int (length_frames B)
                     = max 0 (min (frameCount (fp H) text rate srate) (10 * int srate))
                 \<and> channelData B = channels"
    by (simp add: renderSpeech_def Let_def safeFrameCount_def)
next
  assume "rnd (fp H) = (\<lambda>x. x)"
  then show "calculateDuration (fp H) text rate = of_nat (length text) / 5 / 150 * 60 / rate"
    by (simp add: calculateDuration_def)
qed

theorem C3_duration_clamp_witness:
  "(0 :: rat) < 1
   \<and> calculateDuration sampleFpu (replicate 200 CHR ''a'') 1 = 16
   \<and> frameCount sampleFpu (replicate 200 CHR ''a'') 1 8 = 128
   \<and> map_option (\<lambda>r. (fst r, map_option length_frames (snd r)))
        (renderSpeech silenceHost (replicate 200 CHR ''a'') ''alloy'' 1) = Some (8, Some 80)"
proof -
  let ?t = "replicate 200 CHR ''a''"
  have f: "fp silenceHost = sampleFpu"
    by (simp add: silenceHost_def)
  have d: "calculateDuration sampleFpu ?t 1 = 16"
    by (simp add: calculateDuration_def sampleFpu_def)
  have fc: "frameCount sampleFpu ?t 1 8 = 128"
    by (simp add: frameCount_def d) (simp add: sampleFpu_def)
  have pos: "(0 :: rat) < 1"
    by simp
  note c = C3_duration_clamp [OF pos, of silenceHost ?t "''alloy''", unfolded f]
  have h: "newAudioContext silenceHost = Some 8
           \<and> newOfflineAudioContext silenceHost (safeFrameCount sampleFpu ?t 1 8) 8
           \<and> scheduleGraph silenceHost (getVoiceCharacteristics ''alloy'')
                (calculateDuration sampleFpu ?t 1) ?t
           \<and> startRendering silenceHost (safeFrameCount sampleFpu ?t 1 8) 8
                (getVoiceCharacteristics ''alloy'') (calculateDuration sampleFpu ?t 1) ?t
               = Some [replicate (nat (safeFrameCount sampleFpu ?t 1 8)) (Finite 0)]"
    by (simp add: silenceHost_def)
  have "\<exists>B. renderSpeech silenceHost ?t ''alloy'' 1 = Some (8, Some B)"
    using c h by blast
  then obtain B where B: "renderSpeech silenceHost ?t ''alloy'' 1 = Some (8, Some B)"
    by blast
  then have "length_frames B = 80"
    using c fc by auto
  then show ?thesis
    using B d fc by simp
qed

subsection \<open>\<open>stop\<close> and \<open>speak\<close>\<close>

lemma stop_fields [simp]:
  "isSpeaking (stop st) = False"
  "available (stop st) = available st"
  "error (stop st) = error st"
  "isLoading (stop st) = isLoading st"
  "cacheDBRef (stop st) = cacheDBRef st"
  "effects (stop st) = effects st"
  "audioRef (stop st) = map_option (\<lambda>a. a\<lparr> paused := True, currentTime := 0 \<rparr>) (audioRef st)"
  "synthesisRef (stop st)
     = map_option (\<lambda>sy. if speaking sy then sy\<lparr> speaking := False, utterances := [] \<rparr> else sy)
         (synthesisRef st)"
  by (simp_all add: stop_def Let_def split: option.splits)

lemma audible_stop [simp]: "audible (stop st) = 0"
  by (simp add: audible_def split: option.splits)

lemma stop_not_speaking:
  assumes "synthesisRef (stop st) = Some sy"
  shows "\<not> speaking sy"
proof (cases "synthesisRef st")
  case None
  then show ?thesis using assms by simp
next
  case (Some z)
  with assms have "(if speaking z then z\<lparr> speaking := False, utterances := [] \<rparr> else z) = sy"
    by simp
  then show ?thesis
    by (cases "speaking z") auto
qed

lemma getFromCache_cong:
  "cacheDBRef st' = cacheDBRef st \<Longrightarrow> getFromCache H st' k = getFromCache H st k"
  by (simp add: getFromCache_def)

lemma clean_code_fence: "cleanMarkdown ''```code```'' = []"
  by code_simp

lemma clean_hello: "cleanMarkdown ''Hello'' = ''Hello''"
  by code_simp

lemma synthesize_noContextHost:
  "synthesizeTextToAudio noContextHost t v r = Some (replicate 44 0)"
  by (simp add: synthesizeTextToAudio_cases renderSpeech_def noContextHost_def)

text \<open>
  C10. When the options disable speech, or the audio subsystem is not available, \<open>speak\<close>
  returns the state it was given: nothing is stopped, the cache is neither read nor
  written, nothing is synthesized, and \<open>isSpeaking\<close>, \<open>isLoading\<close> and \<open>error\<close> keep
  their values.
\<close>

theorem C10_disabled_noop:
  assumes "\<not> enabled options \<or> \<not> available st"
  shows "speak H options text st = st"
  using assms by (auto simp: speak_def)

theorem C10_disabled_noop_witness:
  "\<not> enabled (alloyOptions False)
   \<and> isSpeaking playingState
   \<and> speak (hostAt silenceHost 0) (alloyOptions False) ''Hello'' playingState = playingState"
proof -
  have h: "\<not> enabled (alloyOptions False) \<or> \<not> available playingState"
    by (simp add: alloyOptions_def)
  show ?thesis
    using C10_disabled_noop [OF h, of "hostAt silenceHost 0" "''Hello''"]
    by (simp add: alloyOptions_def playingState_def)
qed

text \<open>
  C6 (as stated, refuted). The claim lets \<open>speak\<close> change nothing observable when the
  text is empty after the clean-up. \<open>speak\<close> calls \<open>stop()\<close> before it cleans the text:
  with a playing audio element and a text that is one code fence, the element is paused
  and \<open>isSpeaking\<close> becomes false.
\<close>

theorem C6_stop_counterexample:
  "enabled (alloyOptions True) \<and> available playingState
   \<and> cleanMarkdown ''```code```'' = []
   \<and> isSpeaking playingState
   \<and> map_option paused (audioRef playingState) = Some False
   \<and> isSpeaking (speak (hostAt silenceHost 0) (alloyOptions True) ''```code```'' playingState)
       = False
   \<and> map_option paused
        (audioRef (speak (hostAt silenceHost 0) (alloyOptions True) ''```code```'' playingState))
       = Some True
   \<and> speak (hostAt silenceHost 0) (alloyOptions True) ''```code```'' playingState
       \<noteq> playingState"
proof -
  have s: "speak (hostAt silenceHost 0) (alloyOptions True) ''```code```'' playingState
           = stop playingState"
    by (simp add: speak_def speakFlow_def clean_code_fence alloyOptions_def playingState_def)
  have "isSpeaking (stop playingState) \<noteq> isSpeaking playingState"
    by (simp add: playingState_def)
  then have "stop playingState \<noteq> playingState"
    by metis
  then show ?thesis
    unfolding s by (simp add: clean_code_fence) (simp add: alloyOptions_def playingState_def)
qed

text \<open>
  C6 (amended). For every text that is empty after the clean-up, an enabled and
  available \<open>speak\<close> does what \<open>stop()\<close> does and nothing else: the cache is neither
  read nor written, nothing is synthesized, no sound starts, and \<open>error\<close> and
  \<open>isLoading\<close> keep their values.
\<close>

theorem C6_empty_text_stops:
  assumes "enabled options" "available st" "cleanMarkdown text = []"
  shows "speak H options text st = stop st
         \<and> effects (speak H options text st) = effects st
         \<and> cacheDBRef (speak H options text st) = cacheDBRef st
         \<and> error (speak H options text st) = error st
         \<and> isLoading (speak H options text st) = isLoading st
         \<and> available (speak H options text st) = available st
         \<and> isSpeaking (speak H options text st) = False
         \<and> audible (speak H options text st) = 0"
  using assms by (simp add: speak_def speakFlow_def)

theorem C6_empty_text_stops_witness:
  "enabled (alloyOptions True) \<and> available playingState
   \<and> cleanMarkdown ''```code```'' = []
   \<and> speak (hostAt silenceHost 0) (alloyOptions True) ''```code```'' playingState
       = stop playingState
   \<and> effects (speak (hostAt silenceHost 0) (alloyOptions True) ''```code```'' playingState) = []
   \<and> error (speak (hostAt silenceHost 0) (alloyOptions True) ''```code```'' playingState) = None"
proof -
  have e: "enabled (alloyOptions True)" and a: "available playingState"
    by (simp_all add: alloyOptions_def playingState_def)
  show ?thesis
    using C6_empty_text_stops [OF e a clean_code_fence, of "hostAt silenceHost 0"] e a
    by (simp add: clean_code_fence) (simp add: playingState_def)
qed

text \<open>Effects and sound sources of the steps that can start a sound.\<close>

lemma useBrowserTTS_audible:
  "audible st = 0 \<Longrightarrow> audible (useBrowserTTS st t) \<le> 1"
  by (auto simp: audible_def useBrowserTTS_def split: option.splits if_splits)

lemma useBrowserTTS_effects:
  "\<exists>new. effects (useBrowserTTS st t) = effects st @ new \<and> length (filter startsSound new) \<le> 1
         \<and> filter synthesisWork new = []"
  by (auto simp: useBrowserTTS_def split: option.splits)

lemma playAudioBuffer_audible:
  "audible st = 0 \<Longrightarrow> audible (playAudioBuffer H options bytes st) \<le> 1"
  by (auto simp: audible_def playAudioBuffer_def useBrowserTTS_def Let_def
      split: option.splits if_splits)

lemma playAudioBuffer_effects:
  "\<exists>new. effects (playAudioBuffer H options bytes st) = effects st @ new
         \<and> length (filter startsSound new) \<le> 1 \<and> filter synthesisWork new = []"
  by (auto simp: playAudioBuffer_def useBrowserTTS_def Let_def split: option.splits)

lemma playAudioBuffer_cacheDBRef [simp]:
  "cacheDBRef (playAudioBuffer H options bytes st) = cacheDBRef st"
  by (auto simp: playAudioBuffer_def useBrowserTTS_def Let_def split: option.splits)

lemma saveToCache_audible [simp]:
  "audible (saveToCache H k bytes t v st) = audible st"
  by (auto simp: audible_def saveToCache_def split: option.splits)

lemma saveToCache_effects:
  "\<exists>new. effects (saveToCache H k bytes t v st) = effects st @ new
         \<and> filter startsSound new = []"
  by (auto simp: saveToCache_def split: option.splits)

lemma audible_update [simp]:
  "audible (st\<lparr> isLoading := b \<rparr>) = audible st"
  "audible (st\<lparr> error := e \<rparr>) = audible st"
  "audible (st\<lparr> effects := es \<rparr>) = audible st"
  by (simp_all add: audible_def)

lemma speakFlow_audible:
  assumes "audible st = 0"
  shows "audible (speakFlow H options text st) \<le> 1"
proof -
  have a: "audible (playAudioBuffer H options bytes st') \<le> Suc 0" if "audible st' = 0"
    for bytes st'
    using playAudioBuffer_audible [OF that] by simp
  have b: "audible (useBrowserTTS st' t) \<le> Suc 0" if "audible st' = 0" for st' t
    using useBrowserTTS_audible [OF that] by simp
  show ?thesis
    using assms by (auto simp: speakFlow_def Let_def intro!: a b split: option.splits)
qed

lemma speakFlow_effects:
  "\<exists>new. effects (speakFlow H options text st) = effects st @ new
         \<and> length (filter startsSound new) \<le> 1"
proof (cases "cleanMarkdown text = []")
  case True
  then show ?thesis by (simp add: speakFlow_def)
next
  case False
  let ?k = "generateCacheKey (cleanMarkdown text) (opt_voice options)"
  let ?st1 = "st\<lparr> isLoading := True, error := None \<rparr>"
  let ?st2 = "?st1\<lparr> effects := effects ?st1 @ [CacheRead ?k] \<rparr>"
  show ?thesis
  proof (cases "getFromCache H ?st1 ?k")
    case (Some bytes)
    obtain new where "effects (playAudioBuffer H options bytes ?st2) = effects ?st2 @ new"
      "length (filter startsSound new) \<le> 1"
      using playAudioBuffer_effects by blast
    then show ?thesis
      using False Some by (simp add: speakFlow_def Let_def)
  next
    case None
    let ?st2' = "?st2\<lparr> effects := effects ?st2
        @ [Synthesis (cleanMarkdown text) (opt_voice options) (opt_rate options)] \<rparr>"
    show ?thesis
    proof (cases "synthesizeTextToAudio (audio H) (cleanMarkdown text) (opt_voice options)
                    (opt_rate options)")
      case None
      obtain new where "effects (useBrowserTTS ?st2' (cleanMarkdown text)) = effects ?st2' @ new"
        "length (filter startsSound new) \<le> 1"
        using useBrowserTTS_effects by blast
      then show ?thesis
        using False \<open>getFromCache H ?st1 ?k = None\<close> None by (simp add: speakFlow_def Let_def)
    next
      case (Some bytes)
      let ?st3 = "saveToCache H ?k bytes (cleanMarkdown text) (opt_voice options) ?st2'"
      obtain n1 where n1: "effects ?st3 = effects ?st2' @ n1" "filter startsSound n1 = []"
        using saveToCache_effects by blast
      obtain n2 where n2: "effects (playAudioBuffer H options bytes ?st3) = effects ?st3 @ n2"
        "length (filter startsSound n2) \<le> 1"
        using playAudioBuffer_effects by blast
      show ?thesis
        using False \<open>getFromCache H ?st1 ?k = None\<close> Some n1 n2
        by (simp add: speakFlow_def Let_def)
    qed
  qed
qed

text \<open>A call of \<open>speak\<close> that runs to its end without another event in between: it
  begins with \<open>stop()\<close>, after which nothing is audible, and it starts at most one
  sound.\<close>

lemma speak_stops_then_one_sound:
  assumes "enabled options" "available st"
  shows "speak H options text st = speakFlow H options text (stop st)
         \<and> audioRef (stop st) = map_option (\<lambda>a. a\<lparr> paused := True, currentTime := 0 \<rparr>) (audioRef st)
         \<and> (\<forall>sy. synthesisRef (stop st) = Some sy \<longrightarrow> \<not> speaking sy)
         \<and> audible (stop st) = 0
         \<and> audible (speak H options text st) \<le> 1
         \<and> take (length (effects st)) (effects (speak H options text st)) = effects st
         \<and> length (filter startsSound
              (drop (length (effects st)) (effects (speak H options text st)))) \<le> 1"
proof -
  have s: "speak H options text st = speakFlow H options text (stop st)"
    using assms by (simp add: speak_def)
  obtain new where new: "effects (speakFlow H options text (stop st)) = effects (stop st) @ new"
    "length (filter startsSound new) \<le> 1"
    using speakFlow_effects by blast
  have a: "audible (speak H options text st) \<le> 1"
    unfolding s by (rule speakFlow_audible) simp
  have q: "\<forall>sy. synthesisRef (stop st) = Some sy \<longrightarrow> \<not> speaking sy"
    by (intro allI impI) (rule stop_not_speaking)
  have t: "take (length (effects st)) (effects (speak H options text st)) = effects st"
    unfolding s new(1) by simp
  have d: "length (filter startsSound
              (drop (length (effects st)) (effects (speak H options text st)))) \<le> 1"
    unfolding s new(1) using new(2) by simp
  have r: "audioRef (stop st)
           = map_option (\<lambda>a. a\<lparr> paused := True, currentTime := 0 \<rparr>) (audioRef st)"
    by simp
  have z: "audible (stop st) = 0"
    by simp
  from s r q z a t d show ?thesis
    by (intro conjI)
qed

text \<open>
  C2 (as stated, refuted). The claim lets an exception of the rendering leave
  \<open>synthesizeTextToAudio\<close> and keeps the fallback tone out of it. On a host whose
  rendering rejects, \<open>synthesizeTextToAudio\<close> returns normally, and what it returns is
  the fallback tone of \<open>createFallbackBeep\<close>.
\<close>

theorem C2_render_failure_counterexample:
  "renderSpeech renderFailsHost ''Hi'' ''alloy'' 1 = Some (8, None)
   \<and> synthesizeTextToAudio renderFailsHost ''Hi'' ''alloy'' 1 = createFallbackBeep sampleFpu 8
   \<and> synthesizeTextToAudio renderFailsHost ''Hi'' ''alloy'' 1 \<noteq> None"
  by (simp add: renderSpeech_renderFailsHost synthesize_renderFailsHost
      createFallbackBeep_closed_form)

text \<open>
  C2 (amended). If the rendering throws, \<open>synthesizeTextToAudio\<close> catches the exception
  itself and returns the fallback tone of \<open>createFallbackBeep\<close>, a mono PCM file of
  half a second at the context's sample rate. Nothing reaches \<open>speak\<close> as an
  exception: on a cache miss \<open>speak\<close> stores the tone in the cache and hands it to the
  player like any synthesized audio; its own fallback, the native engine, is not
  entered for this failure.
\<close>

theorem C2_render_failure_handled:
  assumes "renderSpeech A spoken voice rate = Some (srate, None)"
  shows "\<exists>beep. createFallbackBeep (fp A) srate = Some beep
           \<and> length beep = 44 + 2 * (srate div 2)
           \<and> take 44 beep = wavHeader 1 srate (2 * (srate div 2))
           \<and> synthesizeTextToAudio A spoken voice rate = Some beep
           \<and> (\<forall>H options raw st.
                 audio H = A \<and> cleanMarkdown raw = spoken \<and> spoken \<noteq> []
                 \<and> opt_voice options = voice \<and> opt_rate options = rate
                 \<and> enabled options \<and> available st
                 \<and> getFromCache H st (generateCacheKey spoken voice) = None \<longrightarrow>
                 speak H options raw st
                 = (playAudioBuffer H options beep
                      (saveToCache H (generateCacheKey spoken voice) beep spoken voice
                         ((stop st)\<lparr> isLoading := True, error := None,
                            effects := effects st
                              @ [CacheRead (generateCacheKey spoken voice),
                                 Synthesis spoken voice rate] \<rparr>)))
                   \<lparr> isLoading := False \<rparr>)"
proof -
  let ?beep = "wavHeader 1 srate (2 * (srate div 2)) @ beepBytes (fp A) srate (srate div 2) 0"
  let ?k = "generateCacheKey spoken voice"
  have b: "createFallbackBeep (fp A) srate = Some ?beep"
    by (rule createFallbackBeep_closed_form)
  have s: "synthesizeTextToAudio A spoken voice rate = Some ?beep"
    using assms b by (simp add: synthesizeTextToAudio_cases)
  have sp: "speak H options raw st
            = (playAudioBuffer H options ?beep
                 (saveToCache H ?k ?beep spoken voice
                    ((stop st)\<lparr> isLoading := True, error := None,
                       effects := effects st @ [CacheRead ?k, Synthesis spoken voice rate] \<rparr>)))
              \<lparr> isLoading := False \<rparr>"
    if h: "audio H = A \<and> cleanMarkdown raw = spoken \<and> spoken \<noteq> []
           \<and> opt_voice options = voice \<and> opt_rate options = rate
           \<and> enabled options \<and> available st \<and> getFromCache H st ?k = None"
    for H options raw st
  proof -
    have "getFromCache H ((stop st)\<lparr> isLoading := True, error := None \<rparr>) ?k
          = getFromCache H st ?k"
      by (rule getFromCache_cong) simp
    then have g: "getFromCache H ((stop st)\<lparr> isLoading := True, error := None \<rparr>) ?k = None"
      using h by simp
    show ?thesis
      using h g s by (auto simp: speak_def speakFlow_def Let_def)
  qed
  show ?thesis
    using b s sp by (intro exI [of _ ?beep]) simp
qed

theorem C2_render_failure_handled_witness:
  "renderSpeech renderFailsHost ''Hello'' ''alloy'' 1 = Some (8, None)
   \<and> synthesizeTextToAudio renderFailsHost ''Hello'' ''alloy'' 1
       = Some (wavHeader 1 8 8 @ beepBytes sampleFpu 8 4 0)
   \<and> effects (speak (hostAt renderFailsHost 0) (alloyOptions True) ''Hello'' idleState)
       = [CacheRead (generateCacheKey ''Hello'' ''alloy''), Synthesis ''Hello'' ''alloy'' 1,
          CacheWrite (generateCacheKey ''Hello'' ''alloy''),
          Playback (wavHeader 1 8 8 @ beepBytes sampleFpu 8 4 0)]
   \<and> cachedBytes (speak (hostAt renderFailsHost 0) (alloyOptions True) ''Hello'' idleState)
        (generateCacheKey ''Hello'' ''alloy'')
       = Some (wavHeader 1 8 8 @ beepBytes sampleFpu 8 4 0)"
proof -
  let ?beep = "wavHeader 1 8 8 @ beepBytes sampleFpu 8 4 0"
  let ?k = "generateCacheKey ''Hello'' ''alloy''"
  let ?H = "hostAt renderFailsHost 0"
  have r: "renderSpeech renderFailsHost ''Hello'' ''alloy'' 1 = Some (8, None)"
    by (rule renderSpeech_renderFailsHost)
  have f: "fp renderFailsHost = sampleFpu"
    by (simp add: renderFailsHost_def)
  from C2_render_failure_handled [OF r] obtain beep where
    beep: "createFallbackBeep (fp renderFailsHost) 8 = Some beep"
      "synthesizeTextToAudio renderFailsHost ''Hello'' ''alloy'' 1 = Some beep"
    and sp: "\<And>H options raw st.
          audio H = renderFailsHost \<and> cleanMarkdown raw = ''Hello'' \<and> ''Hello'' \<noteq> []
          \<and> opt_voice options = ''alloy'' \<and> opt_rate options = 1
          \<and> enabled options \<and> available st \<and> getFromCache H st ?k = None \<Longrightarrow>
          speak H options raw st
          = (playAudioBuffer H options beep
               (saveToCache H ?k beep ''Hello'' ''alloy''
                  ((stop st)\<lparr> isLoading := True, error := None,
                     effects := effects st @ [CacheRead ?k, Synthesis ''Hello'' ''alloy'' 1] \<rparr>)))
            \<lparr> isLoading := False \<rparr>"
    by blast
  have eq: "beep = ?beep"
    using beep(1) by (simp add: f createFallbackBeep_closed_form)
  have "speak ?H (alloyOptions True) ''Hello'' idleState
        = (playAudioBuffer ?H (alloyOptions True) beep
               (saveToCache ?H ?k beep ''Hello'' ''alloy''
                  ((stop idleState)\<lparr> isLoading := True, error := None,
                     effects := effects idleState
                       @ [CacheRead ?k, Synthesis ''Hello'' ''alloy'' 1] \<rparr>)))
            \<lparr> isLoading := False \<rparr>"
    by (rule sp) (simp add: hostAt_def clean_hello alloyOptions_def idleState_def getFromCache_def)
  then have e: "effects (speak ?H (alloyOptions True) ''Hello'' idleState)
                = [CacheRead ?k, Synthesis ''Hello'' ''alloy'' 1, CacheWrite ?k, Playback ?beep]"
    and c: "cachedBytes (speak ?H (alloyOptions True) ''Hello'' idleState) ?k = Some ?beep"
    by (simp_all add: eq playAudioBuffer_def saveToCache_def hostAt_def idleState_def Let_def
        cachedBytes_def)
  show ?thesis
    using r beep(2) eq e c by simp
qed

subsection \<open>Overlapping calls of \<open>speak\<close>\<close>

lemma nativeSilent_stop: "nativeSilent (stop st)"
  by (auto simp: nativeSilent_def stop_def Let_def split: option.splits)

lemma nativeSilent_audible: "nativeSilent st \<Longrightarrow> audible st \<le> Suc 0"
  by (auto simp: nativeSilent_def audible_def split: option.splits)

lemma nativeSilent_update [simp]:
  "nativeSilent (st\<lparr> isLoading := b \<rparr>) = nativeSilent st"
  "nativeSilent (st\<lparr> error := e \<rparr>) = nativeSilent st"
  "nativeSilent (st\<lparr> effects := es \<rparr>) = nativeSilent st"
  by (simp_all add: nativeSilent_def)

lemma nativeSilent_saveToCache [simp]:
  "nativeSilent (saveToCache H k bytes t v st) = nativeSilent st"
  by (auto simp: nativeSilent_def saveToCache_def split: option.splits)

lemma nativeSilent_playAudioBuffer:
  "\<not> blobFails H \<Longrightarrow> \<not> playRejected H \<Longrightarrow>
   nativeSilent (playAudioBuffer H options bytes st) = nativeSilent st"
  by (auto simp: nativeSilent_def playAudioBuffer_def Let_def split: option.splits)

lemma quiet_beginSpeak: "quiet h \<Longrightarrow> quiet (beginSpeak options text h)"
  by (auto simp: quiet_def beginSpeak_def Let_def nativeSilent_stop)

lemma quiet_playAndFinish:
  assumes "nativeSilent (hook_state h)" "\<not> blobFails H" "\<not> playRejected H"
  shows "quiet (playAndFinish H i options bytes h)"
proof -
  have "nativeSilent (playAudioBuffer H options bytes (hook_state h))"
    using assms by (simp add: nativeSilent_playAudioBuffer)
  then show ?thesis
    by (simp add: quiet_def playAndFinish_def Let_def nativeSilent_audible)
qed

lemma quiet_resumeCall:
  assumes "nativeSilent (hook_state h)" "\<not> blobFails H" "\<not> playRejected H"
  shows "quiet (resumeCall H i c h)"
proof (cases "call_stage c")
  case (AwaitCache db)
  show ?thesis
  proof (cases "getFromCache H ((hook_state h)\<lparr> cacheDBRef := db \<rparr>)
                  (generateCacheKey (call_text c) (opt_voice (call_options c)))")
    case None
    then show ?thesis
      using assms AwaitCache by (simp add: resumeCall_def Let_def quiet_def nativeSilent_audible)
  next
    case (Some bytes)
    have "quiet (playAndFinish H i (call_options c) bytes
            (h\<lparr> hook_state := (hook_state h)\<lparr> effects := effects (hook_state h)
               @ [CacheRead (generateCacheKey (call_text c) (opt_voice (call_options c)))] \<rparr> \<rparr>))"
      using assms by (intro quiet_playAndFinish) simp_all
    then show ?thesis
      using AwaitCache Some by (simp add: resumeCall_def Let_def)
  qed
next
  case AwaitSynthesis
  obtain bytes where "synthesizeTextToAudio (audio H) (call_text c) (opt_voice (call_options c))
      (opt_rate (call_options c)) = Some bytes"
    using synthesizeTextToAudio_total by blast
  then show ?thesis
    using assms AwaitSynthesis by (simp add: resumeCall_def Let_def quiet_def nativeSilent_audible)
next
  case (AwaitSave bytes)
  then show ?thesis
    using quiet_playAndFinish [OF assms] by (simp add: resumeCall_def Let_def)
qed

lemma quiet_step:
  assumes "quiet h" "playbackSucceeds e"
  shows "quiet (step e h)"
proof (cases e)
  case (SpeakCalled options spoken)
  then show ?thesis using assms by (simp add: step_def quiet_beginSpeak)
next
  case (AwaitDone i H)
  show ?thesis
  proof (cases "i < length (calls h)")
    case True
    then have "calls h \<noteq> []" by auto
    then have "nativeSilent (hook_state h)" using assms(1) by (simp add: quiet_def)
    then show ?thesis
      using True AwaitDone assms(2) by (simp add: step_def quiet_resumeCall)
  next
    case False
    then show ?thesis using AwaitDone assms(1) by (simp add: step_def)
  qed
next
  case (PlayFulfilled n)
  then show ?thesis using assms(1) by (simp add: step_def quiet_def)
next
  case (PlayFailedLater n)
  then show ?thesis using assms(2) by simp
qed

lemma quiet_run:
  "quiet h \<Longrightarrow> list_all playbackSucceeds evs \<Longrightarrow> quiet (run evs h)"
  by (induction evs arbitrary: h) (simp_all add: quiet_step)

lemma quiet_run_take:
  assumes "quiet h" "list_all playbackSucceeds evs"
  shows "quiet (run (take n evs) h)"
proof -
  have "list_all playbackSucceeds (take n evs)"
    using assms(2) by (auto simp: list_all_iff dest: in_set_takeD)
  then show ?thesis
    using assms(1) by (rule quiet_run [rotated])
qed

text \<open>The handler of a rejected \<open>play()\<close> is the one that \<open>playAudioBuffer\<close> runs when
  the rejection is immediate.\<close>

lemma playAudioBuffer_rejected:
  assumes "\<not> blobFails H" "playRejected H" "audioRef st = Some a"
  shows "playAudioBuffer H options bytes st
         = playRejection (st\<lparr> audioRef := Some (a\<lparr> src := Some bytes,
                                   playbackRate := opt_rate options \<rparr>) \<rparr>)"
  using assms by (simp add: playAudioBuffer_def playRejection_def Let_def split: option.splits)

text \<open>A call that no other event interrupts is the call of \<open>speak\<close> run to its end.\<close>

lemma run_uninterrupted:
  assumes "calls h = []"
  shows "hook_state (run [SpeakCalled options text, AwaitDone 0 H, AwaitDone 0 H, AwaitDone 0 H] h)
         = speak H options text (hook_state h)"
proof (cases "\<not> enabled options \<or> \<not> available (hook_state h)")
  case True
  then show ?thesis
    using assms by (auto simp: step_def beginSpeak_def speak_def)
next
  case False
  then have ea: "enabled options" "available (hook_state h)" by auto
  show ?thesis
  proof (cases "cleanMarkdown text = []")
    case True
    then show ?thesis
      using assms ea by (simp add: step_def beginSpeak_def speak_def speakFlow_def Let_def)
  next
    case False
    let ?k = "generateCacheKey (cleanMarkdown text) (opt_voice options)"
    let ?st1 = "(stop (hook_state h))\<lparr> isLoading := True, error := None \<rparr>"
    have g: "getFromCache H (?st1\<lparr> cacheDBRef := cacheDBRef (stop (hook_state h)) \<rparr>) ?k
             = getFromCache H ?st1 ?k"
      by (rule getFromCache_cong) simp
    show ?thesis
    proof (cases "getFromCache H ?st1 ?k")
      case (Some bytes)
      then show ?thesis
        using assms ea False g
        by (simp add: step_def beginSpeak_def speak_def speakFlow_def Let_def resumeCall_def
            playAndFinish_def)
    next
      case None
      obtain bytes where b: "synthesizeTextToAudio (audio H) (cleanMarkdown text)
          (opt_voice options) (opt_rate options) = Some bytes"
        using synthesizeTextToAudio_total by blast
      show ?thesis
        using assms ea False g None b
        by (simp add: step_def beginSpeak_def speak_def speakFlow_def Let_def resumeCall_def
            playAndFinish_def)
    qed
  qed
qed

lemmas run_defs = step_def beginSpeak_def resumeCall_def playAndFinish_def Let_def hookOf_def
  alloyOptions_def clean_hello getFromCache_def hostAt_def synthesize_noContextHost
  saveToCache_def playAudioBuffer_def playRejection_def stop_def

text \<open>
  C8 (as stated, refuted). The claim stops the previous playback whenever \<open>speak\<close> is
  issued, and lets at most one utterance be audible at any time. (1) With speech disabled
  in the options, \<open>speak\<close> returns before \<open>stop()\<close>: a playing audio element keeps
  playing. (2) Speech is enabled and \<open>speak\<close> is called a second time while the first
  call waits for the cache. The first call goes on after the \<open>stop()\<close> of the second;
  its \<open>play()\<close> is rejected, so its handler speaks the apology through the native
  engine. Nothing stops that utterance when the second call then plays its audio: two
  sources are audible. (3) The same, with a second call that comes while the promise of
  the first \<open>play()\<close> is pending, and a rejection that comes after the \<open>stop()\<close> of
  the second call.
\<close>

theorem C8_overlap_counterexample:
  "audible playingState = 1
   \<and> speak (hostAt silenceHost 0) (alloyOptions False) ''Hello'' playingState = playingState
   \<and> hook_state (step (SpeakCalled (alloyOptions False) ''Hello'') (hookOf playingState))
       = playingState
   \<and> map_option paused
        (audioRef (hook_state
           (step (SpeakCalled (alloyOptions False) ''Hello'') (hookOf playingState))))
       = Some False
   \<and> enabled (alloyOptions True) \<and> available idleState \<and> audible idleState = 0
   \<and> calls (hookOf idleState) = []
   \<and> audible (hook_state (run (take 5 rejectedFirst) (hookOf idleState))) = 1
   \<and> audible (hook_state (run rejectedFirst (hookOf idleState))) = 2
   \<and> effects (hook_state (run rejectedFirst (hookOf idleState)))
       = [CacheRead (generateCacheKey ''Hello'' ''alloy''), Synthesis ''Hello'' ''alloy'' 1,
          CacheWrite (generateCacheKey ''Hello'' ''alloy''),
          NativeUtterance ''Audio playback failed. Using fallback voice.'',
          CacheRead (generateCacheKey ''Hello'' ''alloy''), Synthesis ''Hello'' ''alloy'' 1,
          CacheWrite (generateCacheKey ''Hello'' ''alloy''), Playback (replicate 44 0)]
   \<and> audible (hook_state (run (take 5 abortedFirst) (hookOf idleState))) = 0
   \<and> audible (hook_state (run abortedFirst (hookOf idleState))) = 2
   \<and> effects (hook_state (run abortedFirst (hookOf idleState)))
       = [CacheRead (generateCacheKey ''Hello'' ''alloy''), Synthesis ''Hello'' ''alloy'' 1,
          CacheWrite (generateCacheKey ''Hello'' ''alloy''), Playback (replicate 44 0),
          NativeUtterance ''Audio playback failed. Using fallback voice.'',
          CacheRead (generateCacheKey ''Hello'' ''alloy''), Playback (replicate 44 0)]"
proof -
  have a: "audible playingState = 1"
    by (simp add: audible_def playingState_def)
  have b: "speak (hostAt silenceHost 0) (alloyOptions False) ''Hello'' playingState
           = playingState"
    by (simp add: speak_def alloyOptions_def)
  have c: "hook_state (step (SpeakCalled (alloyOptions False) ''Hello'') (hookOf playingState))
           = playingState"
    by (simp add: step_def beginSpeak_def alloyOptions_def hookOf_def)
  have d: "map_option paused (audioRef playingState) = Some False"
    by (simp add: playingState_def)
  have e: "enabled (alloyOptions True) \<and> available idleState \<and> audible idleState = 0
           \<and> calls (hookOf idleState) = []"
    by (simp add: alloyOptions_def idleState_def audible_def hookOf_def)
  have r1: "audible (hook_state (run (take 5 rejectedFirst) (hookOf idleState))) = 1"
    by (simp add: rejectedFirst_def run_defs idleState_def rejectingHost_def audible_def)
  have r2: "audible (hook_state (run rejectedFirst (hookOf idleState))) = 2"
    by (simp add: rejectedFirst_def run_defs idleState_def rejectingHost_def audible_def)
  have r3: "effects (hook_state (run rejectedFirst (hookOf idleState)))
       = [CacheRead (generateCacheKey ''Hello'' ''alloy''), Synthesis ''Hello'' ''alloy'' 1,
          CacheWrite (generateCacheKey ''Hello'' ''alloy''),
          NativeUtterance ''Audio playback failed. Using fallback voice.'',
          CacheRead (generateCacheKey ''Hello'' ''alloy''), Synthesis ''Hello'' ''alloy'' 1,
          CacheWrite (generateCacheKey ''Hello'' ''alloy''), Playback (replicate 44 0)]"
    by (simp add: rejectedFirst_def run_defs idleState_def rejectingHost_def)
  have s1: "audible (hook_state (run (take 5 abortedFirst) (hookOf idleState))) = 0"
    by (simp add: abortedFirst_def run_defs idleState_def audible_def)
  have s2: "audible (hook_state (run abortedFirst (hookOf idleState))) = 2"
    by (simp add: abortedFirst_def run_defs idleState_def audible_def)
  have s3: "effects (hook_state (run abortedFirst (hookOf idleState)))
       = [CacheRead (generateCacheKey ''Hello'' ''alloy''), Synthesis ''Hello'' ''alloy'' 1,
          CacheWrite (generateCacheKey ''Hello'' ''alloy''), Playback (replicate 44 0),
          NativeUtterance ''Audio playback failed. Using fallback voice.'',
          CacheRead (generateCacheKey ''Hello'' ''alloy''), Playback (replicate 44 0)]"
    by (simp add: abortedFirst_def run_defs idleState_def)
  from a b c d e r1 r2 r3 s1 s2 s3 show ?thesis
    unfolding c by (intro conjI) simp_all
qed

text \<open>
  C8 (amended). Whenever \<open>speak\<close> is issued with speech enabled and the audio subsystem
  available, whatever calls are suspended at that moment, it first runs \<open>stop()\<close>: the
  audio element is paused and its position reset to the start, a speaking native engine
  is cancelled, and nothing is audible; nothing of the new flow has happened by then
  (no effect is added), the new call only waits for its cache lookup. And in every run
  in which no start of a playback fails (the blob URL is made and no \<open>play()\<close> is
  rejected), under every interleaving of the suspended calls, at most one source is
  audible after every event.
\<close>

theorem C8_one_audible_interleaved:
  "(enabled options \<and> available (hook_state h) \<longrightarrow>
      audioRef (hook_state (step (SpeakCalled options spoken) h))
        = map_option (\<lambda>a. a\<lparr> paused := True, currentTime := 0 \<rparr>) (audioRef (hook_state h))
      \<and> nativeSilent (hook_state (step (SpeakCalled options spoken) h))
      \<and> audible (hook_state (step (SpeakCalled options spoken) h)) = 0
      \<and> effects (hook_state (step (SpeakCalled options spoken) h)) = effects (hook_state h)
      \<and> calls (step (SpeakCalled options spoken) h)
          = calls h @ (if cleanMarkdown spoken = [] then []
                       else [\<lparr> call_options = options, call_text = cleanMarkdown spoken,
                               call_stage = AwaitCache (cacheDBRef (hook_state h)) \<rparr>]))
   \<and> (audible (hook_state h) \<le> 1 \<and> (calls h = [] \<or> nativeSilent (hook_state h))
       \<and> list_all playbackSucceeds evs \<longrightarrow>
        (\<forall>n. audible (hook_state (run (take n evs) h)) \<le> 1))"
proof (intro conjI impI allI)
  assume ea: "enabled options \<and> available (hook_state h)"
  let ?h = "step (SpeakCalled options spoken) h"
  have s: "hook_state ?h
           = (if cleanMarkdown spoken = [] then stop (hook_state h)
              else (stop (hook_state h))\<lparr> isLoading := True, error := None \<rparr>)"
    using ea by (simp add: step_def beginSpeak_def Let_def)
  show "audioRef (hook_state ?h)
        = map_option (\<lambda>a. a\<lparr> paused := True, currentTime := 0 \<rparr>) (audioRef (hook_state h))"
    unfolding s by simp
  show "nativeSilent (hook_state ?h)"
    unfolding s by (simp add: nativeSilent_stop)
  show "audible (hook_state ?h) = 0"
    unfolding s by simp
  show "effects (hook_state ?h) = effects (hook_state h)"
    unfolding s by simp
  show "calls ?h
        = calls h @ (if cleanMarkdown spoken = [] then []
                     else [\<lparr> call_options = options, call_text = cleanMarkdown spoken,
                             call_stage = AwaitCache (cacheDBRef (hook_state h)) \<rparr>])"
    using ea by (simp add: step_def beginSpeak_def Let_def)
next
  fix n
  assume a: "audible (hook_state h) \<le> 1 \<and> (calls h = [] \<or> nativeSilent (hook_state h))
             \<and> list_all playbackSucceeds evs"
  then have "quiet h"
    by (simp add: quiet_def)
  then have "quiet (run (take n evs) h)"
    using a by (intro quiet_run_take) simp_all
  then show "audible (hook_state (run (take n evs) h)) \<le> 1"
    by (simp add: quiet_def)
qed

theorem C8_one_audible_interleaved_witness:
  "enabled (alloyOptions True) \<and> available (hook_state (hookOf playingState))
   \<and> audible (hook_state (hookOf playingState)) = 1
   \<and> calls (hookOf playingState) = []
   \<and> list_all playbackSucceeds overlappingCalls
   \<and> audible (hook_state (step (SpeakCalled (alloyOptions True) ''Hello'') (hookOf playingState)))
       = 0
   \<and> map_option paused
        (audioRef (hook_state
           (step (SpeakCalled (alloyOptions True) ''Hello'') (hookOf playingState))))
       = Some True
   \<and> map_option currentTime
        (audioRef (hook_state
           (step (SpeakCalled (alloyOptions True) ''Hello'') (hookOf playingState))))
       = Some 0
   \<and> map (call_stage) (calls (run (take 2 overlappingCalls) (hookOf playingState)))
       = [AwaitCache (cacheDBRef playingState), AwaitCache (cacheDBRef playingState)]
   \<and> audible (hook_state (run (take 6 overlappingCalls) (hookOf playingState))) = 0
   \<and> audible (hook_state (run (take 7 overlappingCalls) (hookOf playingState))) = 1
   \<and> audible (hook_state (run (take 8 overlappingCalls) (hookOf playingState))) = 1
   \<and> effects (hook_state (run overlappingCalls (hookOf playingState)))
       = [CacheRead (generateCacheKey ''Hello'' ''alloy''), Synthesis ''Hello'' ''alloy'' 1,
          CacheRead (generateCacheKey ''Hello'' ''alloy''), Synthesis ''Hello'' ''alloy'' 1,
          CacheWrite (generateCacheKey ''Hello'' ''alloy''),
          CacheWrite (generateCacheKey ''Hello'' ''alloy''),
          Playback (replicate 44 0), Playback (replicate 44 0)]"
proof -
  let ?h = "hookOf playingState"
  let ?s = "step (SpeakCalled (alloyOptions True) ''Hello'') ?h"
  have e: "enabled (alloyOptions True) \<and> available (hook_state ?h)"
    by (simp add: alloyOptions_def hookOf_def playingState_def)
  have p: "audible (hook_state ?h) = 1" "calls ?h = []"
    by (simp_all add: hookOf_def audible_def playingState_def)
  have l: "list_all playbackSucceeds overlappingCalls"
    by (simp add: overlappingCalls_def hostAt_def)
  have q: "audible (hook_state ?h) \<le> 1 \<and> (calls ?h = [] \<or> nativeSilent (hook_state ?h))
           \<and> list_all playbackSucceeds overlappingCalls"
    using p l by simp
  note main = C8_one_audible_interleaved [of "alloyOptions True" ?h "''Hello''" overlappingCalls]
  have first: "audioRef (hook_state ?s)
        = map_option (\<lambda>a. a\<lparr> paused := True, currentTime := 0 \<rparr>) (audioRef (hook_state ?h))"
    "audible (hook_state ?s) = 0"
    using main e by simp_all
  have r: "map_option paused (audioRef (hook_state ?s)) = Some True"
    "map_option currentTime (audioRef (hook_state ?s)) = Some 0"
    unfolding first by (simp_all add: hookOf_def playingState_def)
  have bound: "audible (hook_state (run (take n overlappingCalls) ?h)) \<le> 1" for n
    using main q by blast
  have c2: "map (call_stage) (calls (run (take 2 overlappingCalls) ?h))
            = [AwaitCache (cacheDBRef playingState), AwaitCache (cacheDBRef playingState)]"
    by (simp add: overlappingCalls_def run_defs playingState_def)
  have a6: "audible (hook_state (run (take 6 overlappingCalls) ?h)) = 0"
    by (simp add: overlappingCalls_def run_defs playingState_def audible_def)
  have g7: "1 \<le> audible (hook_state (run (take 7 overlappingCalls) ?h))"
    by (simp add: overlappingCalls_def run_defs playingState_def audible_def)
  have g8: "1 \<le> audible (hook_state (run (take 8 overlappingCalls) ?h))"
    by (simp add: overlappingCalls_def run_defs playingState_def audible_def)
  have a7: "audible (hook_state (run (take 7 overlappingCalls) ?h)) = 1"
    using bound [of 7] g7 by (rule order_antisym)
  have a8: "audible (hook_state (run (take 8 overlappingCalls) ?h)) = 1"
    using bound [of 8] g8 by (rule order_antisym)
  have f: "effects (hook_state (run overlappingCalls ?h))
       = [CacheRead (generateCacheKey ''Hello'' ''alloy''), Synthesis ''Hello'' ''alloy'' 1,
          CacheRead (generateCacheKey ''Hello'' ''alloy''), Synthesis ''Hello'' ''alloy'' 1,
          CacheWrite (generateCacheKey ''Hello'' ''alloy''),
          CacheWrite (generateCacheKey ''Hello'' ''alloy''),
          Playback (replicate 44 0), Playback (replicate 44 0)]"
    by (simp add: overlappingCalls_def run_defs playingState_def)
  from e p l first(2) r c2 a6 a7 a8 f show ?thesis
    by (intro conjI) simp_all
qed

subsection \<open>The cache\<close>



lemma speak_first_call:
  "speak (hostAt noContextHost 0) (alloyOptions True) ''Hello'' idleState
   = idleState
       \<lparr> isSpeaking := True,
         audioRef := Some \<lparr> src = Some (replicate 44 0), paused = False, currentTime = 0,
                           playbackRate = 1 \<rparr>,
         cacheDBRef := Some
           \<lparr> audioCache = [generateCacheKey ''Hello'' ''alloy'' \<mapsto>
                \<lparr> item_key = generateCacheKey ''Hello'' ''alloy'', item_timestamp = 0,
                  item_voice = ''alloy'', item_textLength = length ''Hello'',
                  item_audioData = replicate 44 0 \<rparr>],
             ttsStats = [\<lparr> stat_date = 0, stat_voice = ''alloy'', stat_textLength = length ''Hello'',
                           stat_generated = True \<rparr>] \<rparr>,
         effects := [CacheRead (generateCacheKey ''Hello'' ''alloy''),
                     Synthesis ''Hello'' ''alloy'' 1,
                     CacheWrite (generateCacheKey ''Hello'' ''alloy''),
                     Playback (replicate 44 0)] \<rparr>"
  by (simp add: speak_def speakFlow_def clean_hello Let_def getFromCache_def hostAt_def
      alloyOptions_def synthesize_noContextHost saveToCache_def playAudioBuffer_def
      idleState_def stop_def)

text \<open>
  C4 (as stated, refuted). The claim lets every second call play the cached bytes
  without synthesis once the cache holds an entry. A first call at time 0 fills the
  cache; a second call with the same arguments 14 days later finds the entry expired:
  it synthesizes again, overwrites the entry and plays another payload (here the
  fallback tone, as the rendering now rejects).
\<close>

theorem C4_expired_entry_counterexample:
  "cachedBytes (speak (hostAt noContextHost 0) (alloyOptions True) ''Hello'' idleState)
      (generateCacheKey ''Hello'' ''alloy'') = Some (replicate 44 0)
   \<and> effects (speak (hostAt noContextHost 0) (alloyOptions True) ''Hello'' idleState)
       = [CacheRead (generateCacheKey ''Hello'' ''alloy''), Synthesis ''Hello'' ''alloy'' 1,
          CacheWrite (generateCacheKey ''Hello'' ''alloy''), Playback (replicate 44 0)]
   \<and> effects (speak (hostAt renderFailsHost 1209600000) (alloyOptions True) ''Hello''
                (speak (hostAt noContextHost 0) (alloyOptions True) ''Hello'' idleState))
       = [CacheRead (generateCacheKey ''Hello'' ''alloy''), Synthesis ''Hello'' ''alloy'' 1,
          CacheWrite (generateCacheKey ''Hello'' ''alloy''), Playback (replicate 44 0),
          CacheRead (generateCacheKey ''Hello'' ''alloy''), Synthesis ''Hello'' ''alloy'' 1,
          CacheWrite (generateCacheKey ''Hello'' ''alloy''),
          Playback (wavHeader 1 8 8 @ beepBytes sampleFpu 8 4 0)]
   \<and> length (wavHeader 1 8 8 @ beepBytes sampleFpu 8 4 0) = 52
   \<and> wavHeader 1 8 8 @ beepBytes sampleFpu 8 4 0 \<noteq> replicate 44 0"
proof -
  have l: "length (wavHeader 1 8 8 @ beepBytes sampleFpu 8 4 0) = 52"
    by simp
  have n: "wavHeader 1 8 8 @ beepBytes sampleFpu 8 4 0 \<noteq> replicate 44 0"
  proof
    assume "wavHeader 1 8 8 @ beepBytes sampleFpu 8 4 0 = replicate 44 0"
    then have "length (wavHeader 1 8 8 @ beepBytes sampleFpu 8 4 0) = length (replicate 44 (0 :: byte))"
      by (rule arg_cong)
    then show False
      by simp
  qed
  have e: "effects (speak (hostAt renderFailsHost 1209600000) (alloyOptions True) ''Hello''
                (speak (hostAt noContextHost 0) (alloyOptions True) ''Hello'' idleState))
       = [CacheRead (generateCacheKey ''Hello'' ''alloy''), Synthesis ''Hello'' ''alloy'' 1,
          CacheWrite (generateCacheKey ''Hello'' ''alloy''), Playback (replicate 44 0),
          CacheRead (generateCacheKey ''Hello'' ''alloy''), Synthesis ''Hello'' ''alloy'' 1,
          CacheWrite (generateCacheKey ''Hello'' ''alloy''),
          Playback (wavHeader 1 8 8 @ beepBytes sampleFpu 8 4 0)]"
    unfolding speak_first_call
    by (simp add: speak_def speakFlow_def clean_hello Let_def getFromCache_def hostAt_def
      alloyOptions_def synthesize_renderFailsHost saveToCache_def playAudioBuffer_def
      idleState_def stop_def)
  have c: "cachedBytes (speak (hostAt noContextHost 0) (alloyOptions True) ''Hello'' idleState)
             (generateCacheKey ''Hello'' ''alloy'') = Some (replicate 44 0)"
    unfolding speak_first_call by (simp add: cachedBytes_def)
  have f: "effects (speak (hostAt noContextHost 0) (alloyOptions True) ''Hello'' idleState)
       = [CacheRead (generateCacheKey ''Hello'' ''alloy''), Synthesis ''Hello'' ''alloy'' 1,
          CacheWrite (generateCacheKey ''Hello'' ''alloy''), Playback (replicate 44 0)]"
    unfolding speak_first_call by simp
  from c f e l n show ?thesis
    by (intro conjI)
qed

text \<open>
  C4 (amended). While speech is enabled and available and the store can be read, once
  the cache holds an entry younger than 14 days for the cleaned, non-empty text and the
  voice, \<open>speak\<close> hands exactly the stored bytes to the player, does no synthesis and
  writes nothing to the cache. Those bytes are the payload of the call that filled the
  cache: a call that misses plays the bytes that it synthesizes and stores them under
  the key with the time of the write.
\<close>

theorem C4_cached_playback:
  "(enabled options \<and> available st \<and> cleanMarkdown text \<noteq> []
      \<and> cacheDBRef st = Some db \<and> \<not> storeReadFails H
      \<and> audioCache db (generateCacheKey (cleanMarkdown text) (opt_voice options)) = Some item
      \<and> clock_read H - item_timestamp item < 14 * 24 * 60 * 60 * 1000
     \<longrightarrow> speak H options text st
           = (playAudioBuffer H options (item_audioData item)
                ((stop st)\<lparr> isLoading := True, error := None,
                   effects := effects st
                     @ [CacheRead (generateCacheKey (cleanMarkdown text) (opt_voice options))] \<rparr>))
             \<lparr> isLoading := False \<rparr>
         \<and> filter synthesisWork (drop (length (effects st)) (effects (speak H options text st)))
             = []
         \<and> cacheDBRef (speak H options text st) = cacheDBRef st
         \<and> (audioRef st \<noteq> None \<and> \<not> blobFails H \<and> \<not> playRejected H \<longrightarrow>
              effects (speak H options text st)
                = effects st
                  @ [CacheRead (generateCacheKey (cleanMarkdown text) (opt_voice options)),
                     Playback (item_audioData item)]
              \<and> map_option src (audioRef (speak H options text st))
                  = Some (Some (item_audioData item))))
   \<and> (enabled options \<and> available st \<and> cleanMarkdown text \<noteq> []
      \<and> cacheDBRef st = Some db \<and> \<not> storeWriteFails H
      \<and> getFromCache H st (generateCacheKey (cleanMarkdown text) (opt_voice options)) = None
     \<longrightarrow> (\<exists>bytes db'.
            synthesizeTextToAudio (audio H) (cleanMarkdown text) (opt_voice options)
              (opt_rate options) = Some bytes
            \<and> cacheDBRef (speak H options text st) = Some db'
            \<and> map_option item_audioData
                 (audioCache db' (generateCacheKey (cleanMarkdown text) (opt_voice options)))
                = Some bytes
            \<and> map_option item_timestamp
                 (audioCache db' (generateCacheKey (cleanMarkdown text) (opt_voice options)))
                = Some (clock_write H)
            \<and> (audioRef st \<noteq> None \<and> \<not> blobFails H \<and> \<not> playRejected H \<longrightarrow>
                 effects (speak H options text st)
                   = effects st
                     @ [CacheRead (generateCacheKey (cleanMarkdown text) (opt_voice options)),
                        Synthesis (cleanMarkdown text) (opt_voice options) (opt_rate options),
                        CacheWrite (generateCacheKey (cleanMarkdown text) (opt_voice options)),
                        Playback bytes])))"
proof (intro conjI impI)
  let ?k = "generateCacheKey (cleanMarkdown text) (opt_voice options)"
  assume h: "enabled options \<and> available st \<and> cleanMarkdown text \<noteq> []
      \<and> cacheDBRef st = Some db \<and> \<not> storeReadFails H
      \<and> audioCache db ?k = Some item
      \<and> clock_read H - item_timestamp item < 14 * 24 * 60 * 60 * 1000"
  let ?st2 = "(stop st)\<lparr> isLoading := True, error := None,
                 effects := effects st @ [CacheRead ?k] \<rparr>"
  have g: "getFromCache H ((stop st)\<lparr> isLoading := True, error := None \<rparr>) ?k
           = Some (item_audioData item)"
    using h by (simp add: getFromCache_def)
  show s: "speak H options text st
           = (playAudioBuffer H options (item_audioData item) ?st2)\<lparr> isLoading := False \<rparr>"
    using h g by (simp add: speak_def speakFlow_def Let_def)
  obtain new where new: "effects (playAudioBuffer H options (item_audioData item) ?st2)
                          = effects ?st2 @ new" "filter synthesisWork new = []"
    using playAudioBuffer_effects by blast
  show "filter synthesisWork (drop (length (effects st)) (effects (speak H options text st))) = []"
    unfolding s using new by simp
  show "cacheDBRef (speak H options text st) = cacheDBRef st"
    unfolding s by simp
  assume p: "audioRef st \<noteq> None \<and> \<not> blobFails H \<and> \<not> playRejected H"
  then obtain a where a: "audioRef st = Some a"
    by auto
  show "effects (speak H options text st) = effects st @ [CacheRead ?k, Playback (item_audioData item)]"
    unfolding s using p a by (simp add: playAudioBuffer_def Let_def)
  show "map_option src (audioRef (speak H options text st)) = Some (Some (item_audioData item))"
    unfolding s using p a by (simp add: playAudioBuffer_def Let_def)
next
  let ?k = "generateCacheKey (cleanMarkdown text) (opt_voice options)"
  let ?c = "cleanMarkdown text"
  assume h: "enabled options \<and> available st \<and> cleanMarkdown text \<noteq> []
      \<and> cacheDBRef st = Some db \<and> \<not> storeWriteFails H
      \<and> getFromCache H st ?k = None"
  obtain bytes where b: "synthesizeTextToAudio (audio H) ?c (opt_voice options) (opt_rate options)
                         = Some bytes"
    using synthesizeTextToAudio_total by blast
  let ?st2' = "(stop st)\<lparr> isLoading := True, error := None,
                  effects := effects st @ [CacheRead ?k, Synthesis ?c (opt_voice options)
                    (opt_rate options)] \<rparr>"
  let ?st3 = "saveToCache H ?k bytes ?c (opt_voice options) ?st2'"
  have "getFromCache H ((stop st)\<lparr> isLoading := True, error := None \<rparr>) ?k
        = getFromCache H st ?k"
    by (rule getFromCache_cong) simp
  then have g: "getFromCache H ((stop st)\<lparr> isLoading := True, error := None \<rparr>) ?k = None"
    using h by simp
  have s: "speak H options text st = (playAudioBuffer H options bytes ?st3)\<lparr> isLoading := False \<rparr>"
    using h g b by (simp add: speak_def speakFlow_def Let_def)
  let ?db' = "db\<lparr> audioCache := (audioCache db)(?k \<mapsto>
                  \<lparr> item_key = ?k, item_timestamp = clock_write H,
                    item_voice = opt_voice options, item_textLength = length ?c,
                    item_audioData = bytes \<rparr>),
                ttsStats := ttsStats db @
                  [\<lparr> stat_date = clock_write H, stat_voice = opt_voice options,
                     stat_textLength = length ?c, stat_generated = True \<rparr>] \<rparr>"
  have c: "cacheDBRef (speak H options text st) = Some ?db'"
    unfolding s using h by (simp add: saveToCache_def)
  have e: "effects (speak H options text st)
           = effects st @ [CacheRead ?k, Synthesis ?c (opt_voice options) (opt_rate options),
                           CacheWrite ?k, Playback bytes]"
    if p: "audioRef st \<noteq> None \<and> \<not> blobFails H \<and> \<not> playRejected H"
  proof -
    obtain a where "audioRef st = Some a"
      using p by auto
    then show ?thesis
      unfolding s using h p by (simp add: playAudioBuffer_def saveToCache_def Let_def)
  qed
  show "\<exists>bytes db'.
            synthesizeTextToAudio (audio H) ?c (opt_voice options) (opt_rate options) = Some bytes
            \<and> cacheDBRef (speak H options text st) = Some db'
            \<and> map_option item_audioData (audioCache db' ?k) = Some bytes
            \<and> map_option item_timestamp (audioCache db' ?k) = Some (clock_write H)
            \<and> (audioRef st \<noteq> None \<and> \<not> blobFails H \<and> \<not> playRejected H \<longrightarrow>
                 effects (speak H options text st)
                   = effects st
                     @ [CacheRead ?k, Synthesis ?c (opt_voice options) (opt_rate options),
                        CacheWrite ?k, Playback bytes])"
    using b c e by (intro exI [of _ bytes] exI [of _ ?db']) simp
qed

theorem C4_cached_playback_witness:
  "cachedBytes (speak (hostAt noContextHost 0) (alloyOptions True) ''Hello'' idleState)
      (generateCacheKey ''Hello'' ''alloy'') = Some (replicate 44 0)
   \<and> effects (speak (hostAt noContextHost 0) (alloyOptions True) ''Hello'' idleState)
       = [CacheRead (generateCacheKey ''Hello'' ''alloy''), Synthesis ''Hello'' ''alloy'' 1,
          CacheWrite (generateCacheKey ''Hello'' ''alloy''), Playback (replicate 44 0)]
   \<and> effects (speak (hostAt renderFailsHost 1209599999) (alloyOptions True) ''Hello''
                (speak (hostAt noContextHost 0) (alloyOptions True) ''Hello'' idleState))
       = [CacheRead (generateCacheKey ''Hello'' ''alloy''), Synthesis ''Hello'' ''alloy'' 1,
          CacheWrite (generateCacheKey ''Hello'' ''alloy''), Playback (replicate 44 0),
          CacheRead (generateCacheKey ''Hello'' ''alloy''), Playback (replicate 44 0)]
   \<and> map_option src
        (audioRef (speak (hostAt renderFailsHost 1209599999) (alloyOptions True) ''Hello''
                (speak (hostAt noContextHost 0) (alloyOptions True) ''Hello'' idleState)))
       = Some (Some (replicate 44 0))"
proof -
  let ?k = "generateCacheKey ''Hello'' ''alloy''"
  let ?o = "alloyOptions True"
  let ?H1 = "hostAt noContextHost 0"
  let ?H2 = "hostAt renderFailsHost 1209599999"
  let ?st1 = "speak ?H1 ?o ''Hello'' idleState"
  let ?item = "\<lparr> item_key = ?k, item_timestamp = 0, item_voice = ''alloy'',
                 item_textLength = length ''Hello'', item_audioData = replicate 44 0 \<rparr>"
  let ?db = "\<lparr> audioCache = [?k \<mapsto> ?item],
               ttsStats = [\<lparr> stat_date = 0, stat_voice = ''alloy'', stat_textLength = length ''Hello'',
                             stat_generated = True \<rparr>] \<rparr>"
  have c: "cachedBytes ?st1 ?k = Some (replicate 44 0)"
    and e: "effects ?st1 = [CacheRead ?k, Synthesis ''Hello'' ''alloy'' 1, CacheWrite ?k,
                            Playback (replicate 44 0)]"
    unfolding speak_first_call by (simp_all add: cachedBytes_def)
  have h: "enabled ?o \<and> available ?st1 \<and> cleanMarkdown ''Hello'' \<noteq> []
           \<and> cacheDBRef ?st1 = Some ?db \<and> \<not> storeReadFails ?H2
           \<and> audioCache ?db (generateCacheKey (cleanMarkdown ''Hello'') (opt_voice ?o))
               = Some ?item
           \<and> clock_read ?H2 - item_timestamp ?item < 14 * 24 * 60 * 60 * 1000"
    unfolding speak_first_call
    by (simp add: clean_hello alloyOptions_def idleState_def hostAt_def)
  have p: "audioRef ?st1 \<noteq> None \<and> \<not> blobFails ?H2 \<and> \<not> playRejected ?H2"
    unfolding speak_first_call by (simp add: idleState_def hostAt_def)
  have ov: "opt_voice ?o = ''alloy''"
    by (simp add: alloyOptions_def)
  note t = C4_cached_playback [where options = ?o and st = ?st1 and H = ?H2 and db = ?db
      and item = ?item, THEN conjunct1, rule_format, OF h]
  have e2: "effects (speak ?H2 ?o ''Hello'' ?st1)
            = effects ?st1 @ [CacheRead ?k, Playback (replicate 44 0)]"
    and s2: "map_option src (audioRef (speak ?H2 ?o ''Hello'' ?st1))
             = Some (Some (replicate 44 0))"
    using t [THEN conjunct2, THEN conjunct2, THEN conjunct2, rule_format, OF p,
        unfolded clean_hello ov]
    by simp_all
  show ?thesis
    using c e e2 s2 by simp
qed

end
